theory Spec2Isabelle
  imports Complex_Main
begin

section \<open>Data model (app/models.py, app/schemas.py)\<close>

text \<open>
  The enumerations of \<^verbatim>\<open>app/models.py\<close>, with the source's member names.
\<close>

datatype InvestmentType = TREASURY_NOTE | TREASURY_BILL

datatype InvestmentStatus = ACTIVE | MATURED | SOLD | CANCELLED

datatype PaymentType = COUPON | PRINCIPAL | FINAL_PAYMENT

datatype PaymentStatus = PENDING | DUE | PAID | OVERDUE

text \<open>
  Exceptions that the modelled functions can raise.  \<open>HTTPException_404\<close> is the
  \<^verbatim>\<open>HTTPException(status_code=404, detail=...)\<close> of the router,
  \<open>DivisionByZero\<close> and \<open>InvalidOperation\<close> are those of the module
  \<^verbatim>\<open>decimal\<close>; the others are Python's built-in exceptions, named as Python
  names them.
\<close>

datatype error =
    TypeError
  | ValueError
  | OverflowError
  | NameError string
  | DivisionByZero
  | InvalidOperation
  | HTTPException_404 string

text \<open>
  A \<^verbatim>\<open>datetime.date\<close>: a calendar date without time of day.  Python compares dates
  by year, then month, then day.
\<close>

record date =
  year :: nat
  month :: nat
  day :: nat

definition date_le :: "date \<Rightarrow> date \<Rightarrow> bool" where
  "date_le a b \<longleftrightarrow>
     year a < year b \<or>
     (year a = year b \<and> (month a < month b \<or> (month a = month b \<and> day a \<le> day b)))"


definition MAXYEAR :: nat where
  "MAXYEAR = 9999"

definition isleap :: "nat \<Rightarrow> bool" where
  "isleap y \<longleftrightarrow> y mod 4 = 0 \<and> (y mod 100 \<noteq> 0 \<or> y mod 400 = 0)"

text \<open>
  The number of days of a month, the second component of \<^verbatim>\<open>calendar.monthrange\<close>.
  Every \<^verbatim>\<open>date\<close> object has a month from 1 to 12, so the library's error for other
  month numbers is never reached from a date.
\<close>

definition monthrange :: "nat \<Rightarrow> nat \<Rightarrow> nat" where
  "monthrange y m =
     (if m = 2 then (if isleap y then 29 else 28)
      else if m = 4 \<or> m = 6 \<or> m = 9 \<or> m = 11 then 30
      else 31)"

definition valid_date :: "date \<Rightarrow> bool" where
  "valid_date d \<longleftrightarrow>
     1 \<le> year d \<and> year d \<le> MAXYEAR \<and> 1 \<le> month d \<and> month d \<le> 12 \<and>
     1 \<le> day d \<and> day d \<le> monthrange (year d) (month d)"

text \<open>
  Modelled from the spec: \<^verbatim>\<open>dateutil.relativedelta\<close> is a library outside the
  repository.  \<^verbatim>\<open>dt + relativedelta(months=n)\<close> for \<open>1 \<le> n \<le> 12\<close> moves the month
  forward, carries into the year, keeps the day of the month where the target month has
  it and otherwise takes the target month's last day ("Jan 31 + 6 months = Jul 31;
  Aug 31 + 6 months = Feb 28/29").  The result is built with \<^verbatim>\<open>dt.replace\<close>, which
  raises \<^verbatim>\<open>ValueError\<close> for a year after 9999.
\<close>

definition relativedelta_add :: "nat \<Rightarrow> date \<Rightarrow> error + date" where
  "relativedelta_add months dt =
     (let y = year dt;
          m = month dt + months;
          y' = (if m > 12 then y + 1 else y);
          m' = (if m > 12 then m - 12 else m);
          d = min (monthrange y' m') (day dt)
      in if y' > MAXYEAR then Inl ValueError
         else Inr \<lparr>year = y', month = m', day = d\<rparr>)"

text \<open>
  Identifiers are \<^verbatim>\<open>str(uuid.uuid4())\<close> values.  The model draws them from a counter
  kept with the store, so that every identifier handed out is one never handed out
  before.
\<close>

type_synonym uuid = nat

text \<open>
  A column \<^verbatim>\<open>Numeric(p, s)\<close> holds decimal numbers with \<open>s\<close> digits after the point.
  The model keeps such a value as its integer number of units \<open>1 / 10 ^ s\<close>, so that
  a row cannot hold anything finer, and reads it back as the number it denotes.  A value
  given to the column is rounded to \<open>s\<close> decimals by the database, ties away from zero
  as PostgreSQL rounds \<^verbatim>\<open>numeric\<close> values (\<^verbatim>\<open>database.py\<close>, lines 11 to 14, names
  PostgreSQL).  The bound \<open>p\<close> on the number of digits is not modelled: values are taken
  to fit their columns.
\<close>

definition to_numeric :: "nat \<Rightarrow> rat \<Rightarrow> int" where
  "to_numeric s q =
     (if 0 \<le> q then \<lfloor>q * 10 ^ s + 1 / 2\<rfloor> else - \<lfloor>- q * 10 ^ s + 1 / 2\<rfloor>)"

definition from_numeric :: "nat \<Rightarrow> int \<Rightarrow> rat" where
  "from_numeric s k = of_int k / 10 ^ s"

text \<open>
  The rows of the tables \<^verbatim>\<open>investments\<close> and \<^verbatim>\<open>payment_schedules\<close>.  The money
  columns are \<^verbatim>\<open>Numeric(15, 2)\<close> and the rate is \<^verbatim>\<open>Numeric(5, 4)\<close>; the fields
  ending in \<open>_col\<close> are the stored integers, and \<open>face_value\<close>,
  \<open>purchase_price\<close>, \<open>annual_coupon_rate\<close> and \<open>payment_amount\<close> below are the
  \<^verbatim>\<open>Decimal\<close> values that the attributes of a loaded row give, modelled by the
  rational numbers they denote.  The time stamps \<^verbatim>\<open>created_at\<close> and
  \<^verbatim>\<open>updated_at\<close>, filled by the database server, are left out.  A null
  \<^verbatim>\<open>annual_coupon_rate\<close> is stored as the column default 0, so the row always holds a
  number; \<^verbatim>\<open>issue_date\<close> has no default and may be null, and the two status columns
  are nullable.
\<close>

record Investment =
  inv_id :: uuid
  user_id :: uuid
  investment_type :: InvestmentType
  inv_description :: "string option"
  face_value_col :: int
  purchase_price_col :: int
  annual_coupon_rate_col :: int
  issue_date :: "date option"
  purchase_date :: date
  maturity_date :: date
  status :: "InvestmentStatus option"

definition face_value :: "Investment \<Rightarrow> rat" where
  "face_value i = from_numeric 2 (face_value_col i)"

definition purchase_price :: "Investment \<Rightarrow> rat" where
  "purchase_price i = from_numeric 2 (purchase_price_col i)"

definition annual_coupon_rate :: "Investment \<Rightarrow> rat" where
  "annual_coupon_rate i = from_numeric 4 (annual_coupon_rate_col i)"

record PaymentSchedule =
  pay_id :: uuid
  investment_id :: uuid
  payment_date :: date
  payment_amount_col :: int
  payment_type :: PaymentType
  payment_status :: "PaymentStatus option"
  description :: "string option"
  actual_payment_date :: "date option"
  actual_payment_amount_col :: "int option"

definition payment_amount :: "PaymentSchedule \<Rightarrow> rat" where
  "payment_amount p = from_numeric 2 (payment_amount_col p)"

text \<open>
  A \<^verbatim>\<open>PaymentSchedule(...)\<close> object as the generator constructs it, before it is
  inserted: the keyword arguments of lines 42 to 57 and 66 to 72, the amount being the
  \<^verbatim>\<open>Decimal\<close> that the generator computed.
\<close>

record PaymentSchedule_init =
  init_investment_id :: uuid
  init_payment_date :: date
  init_payment_amount :: rat
  init_payment_type :: PaymentType
  init_description :: string

text \<open>The request body of investment creation (\<^verbatim>\<open>InvestmentCreate\<close>).\<close>

record InvestmentCreate =
  ic_investment_type :: InvestmentType
  ic_description :: "string option"
  ic_face_value :: rat
  ic_purchase_price :: rat
  ic_annual_coupon_rate :: "rat option"
  ic_issue_date :: "date option"
  ic_purchase_date :: date
  ic_maturity_date :: date

text \<open>
  The request body of an investment update (\<^verbatim>\<open>InvestmentUpdate\<close>).  The outer option
  says whether the request set the field at all (\<^verbatim>\<open>dict(exclude_unset=True)\<close> keeps
  only the fields that were set); the inner one is the value, which may be null.
\<close>

record InvestmentUpdate =
  iu_description :: "string option option"
  iu_status :: "InvestmentStatus option option"

text \<open>
  The committed contents of the database, with the identifier counter.  A request works
  in one SQLAlchemy session; \<^verbatim>\<open>db.commit()\<close> makes its changes the committed
  contents, and an exception before the commit closes the session without one, which
  discards the changes.  So a function of the model that raises returns the error and no
  store, and the committed contents stay those of the last commit.
\<close>

record store =
  investments :: "Investment list"
  payment_schedules :: "PaymentSchedule list"
  uuid_source :: uuid

section \<open>Schedule generation (routers/investments.py)\<close>

text \<open>Python's \<^verbatim>\<open>str\<close> of a non-negative integer, used by the coupon description.\<close>

fun str_nat :: "nat \<Rightarrow> string" where
  "str_nat n =
     (if n < 10 then [char_of (48 + n)]
      else str_nat (n div 10) @ [char_of (48 + n mod 10)])"

declare str_nat.simps [simp del]

definition new_PaymentSchedule ::
  "uuid \<Rightarrow> date \<Rightarrow> rat \<Rightarrow> PaymentType \<Rightarrow> string \<Rightarrow> PaymentSchedule_init" where
  "new_PaymentSchedule iid d amount kind descr =
     \<lparr>init_investment_id = iid, init_payment_date = d, init_payment_amount = amount,
      init_payment_type = kind, init_description = descr\<rparr>"

text \<open>
  The row that the insert of such an object stores under the identifier \<open>k\<close>: the
  amount rounded to the two decimals of its column, the status the column default
  \<^verbatim>\<open>PENDING\<close>, the columns that were not given null.
\<close>

definition insert_payment :: "uuid \<Rightarrow> PaymentSchedule_init \<Rightarrow> PaymentSchedule" where
  "insert_payment k payment =
     \<lparr>pay_id = k, investment_id = init_investment_id payment,
      payment_date = init_payment_date payment,
      payment_amount_col = to_numeric 2 (init_payment_amount payment),
      payment_type = init_payment_type payment, payment_status = Some PENDING,
      description = Some (init_description payment),
      actual_payment_date = None, actual_payment_amount_col = None\<rparr>"

text \<open>
  A request works in one SQLAlchemy session.  \<^verbatim>\<open>db.add(payment)\<close> registers the new
  object with the session, and \<^verbatim>\<open>db.commit()\<close> inserts the registered objects, in
  the order they were added, each with a fresh identifier.  The objects registered so far
  are the list \<open>pending\<close>.
\<close>

definition db_add ::
  "PaymentSchedule_init list \<Rightarrow> PaymentSchedule_init \<Rightarrow> PaymentSchedule_init list" where
  "db_add pending payment = pending @ [payment]"

fun insert_rows :: "store \<Rightarrow> PaymentSchedule_init list \<Rightarrow> store" where
  "insert_rows db [] = db"
| "insert_rows db (payment # pending) =
     insert_rows
       (db\<lparr>payment_schedules := payment_schedules db @ [insert_payment (uuid_source db) payment],
           uuid_source := uuid_source db + 1\<rparr>)
       pending"

text \<open>
  The \<^verbatim>\<open>while current_date <= investment.maturity_date\<close> loop of
  \<^verbatim>\<open>generate_payment_schedule\<close>, lines 37 to 62.
\<close>

function note_loop ::
  "PaymentSchedule_init list \<Rightarrow> Investment \<Rightarrow> rat \<Rightarrow> date \<Rightarrow> nat \<Rightarrow>
   error + PaymentSchedule_init list" where
  "note_loop pending investment coupon_amount current_date payment_count =
     (if date_le current_date (maturity_date investment) then
        (let payment_count' = payment_count + 1;
             payment =
               (if current_date = maturity_date investment then
                  new_PaymentSchedule (inv_id investment) current_date
                    (coupon_amount + face_value investment) FINAL_PAYMENT
                    ''Final coupon payment + Principal repayment''
                else
                  new_PaymentSchedule (inv_id investment) current_date
                    coupon_amount COUPON
                    (''Semi-annual coupon payment #'' @ str_nat payment_count'));
             pending' = db_add pending payment
         in case relativedelta_add 6 current_date of
              Inl e \<Rightarrow> Inl e
            | Inr next_date \<Rightarrow>
                note_loop pending' investment coupon_amount next_date payment_count')
      else Inr pending)"
  by pat_completeness auto
termination
proof (relation "measures [\<lambda>(ps, i, c, cur, n). year (maturity_date i) + 1 - year cur,
                           \<lambda>(ps, i, c, cur, n). 13 - month cur]", goal_cases)
  case 1
  show ?case by simp
next
  case (2 pending investment coupon_amount current_date payment_count x xa xb next_date)
  from \<open>date_le current_date (maturity_date investment)\<close>
  have "year current_date \<le> year (maturity_date investment)"
    by (auto simp: date_le_def)
  moreover from \<open>relativedelta_add 6 current_date = Inr next_date\<close>
  have "(year next_date = year current_date + 1) \<or>
        (year next_date = year current_date \<and> month next_date = month current_date + 6
         \<and> month current_date + 6 \<le> 12)"
    by (auto simp: relativedelta_add_def Let_def split: if_splits)
  ultimately show ?case by auto
qed

declare note_loop.simps [simp del]

text \<open>
  \<^verbatim>\<open>generate_payment_schedule(db, investment)\<close>.  Line 23 deletes the investment's
  rows and line 75 commits the delete together with the inserts.  Line 35 adds the
  \<^verbatim>\<open>relativedelta\<close> to \<^verbatim>\<open>investment.issue_date\<close>, and
  \<^verbatim>\<open>None + relativedelta(months=6)\<close> raises \<^verbatim>\<open>TypeError\<close>.
\<close>

definition generate_payment_schedule :: "store \<Rightarrow> Investment \<Rightarrow> error + store" where
  "generate_payment_schedule db investment =
     (let db1 = db\<lparr>payment_schedules :=
                     filter (\<lambda>p. investment_id p \<noteq> inv_id investment) (payment_schedules db)\<rparr>
      in if investment_type investment = TREASURY_NOTE then
           (let coupon_amount = (face_value investment * annual_coupon_rate investment) / 2
            in case issue_date investment of
                 None \<Rightarrow> Inl TypeError
               | Some current_date \<Rightarrow>
                   (case relativedelta_add 6 current_date of
                      Inl e \<Rightarrow> Inl e
                    | Inr first_date \<Rightarrow>
                        (case note_loop [] investment coupon_amount first_date 0 of
                           Inl e \<Rightarrow> Inl e
                         | Inr pending \<Rightarrow> Inr (insert_rows db1 pending))))
         else if investment_type investment = TREASURY_BILL then
           (let payment = new_PaymentSchedule (inv_id investment) (maturity_date investment)
                            (face_value investment) PRINCIPAL ''Treasury bill maturity payment''
            in Inr (insert_rows db1 (db_add [] payment)))
         else Inr db1)"

text \<open>
  \<^verbatim>\<open>Investment(user_id=current_user.id, **investment_data.dict())\<close> as the row that
  the insert stores and \<^verbatim>\<open>db.refresh\<close> (line 92) loads again: the face value and
  the purchase price rounded to two decimals and the rate to four, a status that was not
  given the column default \<^verbatim>\<open>ACTIVE\<close>, and a null coupon rate the column default
  0.
\<close>

definition new_Investment :: "uuid \<Rightarrow> uuid \<Rightarrow> InvestmentCreate \<Rightarrow> Investment" where
  "new_Investment current_user new_id investment_data =
     \<lparr>inv_id = new_id, user_id = current_user,
      investment_type = ic_investment_type investment_data,
      inv_description = ic_description investment_data,
      face_value_col = to_numeric 2 (ic_face_value investment_data),
      purchase_price_col = to_numeric 2 (ic_purchase_price investment_data),
      annual_coupon_rate_col =
        (case ic_annual_coupon_rate investment_data of
           None \<Rightarrow> 0
         | Some r \<Rightarrow> to_numeric 4 r),
      issue_date = ic_issue_date investment_data,
      purchase_date = ic_purchase_date investment_data,
      maturity_date = ic_maturity_date investment_data,
      status = Some ACTIVE\<rparr>"

text \<open>
  \<^verbatim>\<open>create_investment\<close>, lines 77 to 97.  The investment is added and committed
  (line 91) before the schedule is generated (line 95), so the store returned with an
  error of the generator already holds the investment.
\<close>

definition create_investment ::
  "store \<Rightarrow> uuid \<Rightarrow> InvestmentCreate \<Rightarrow> store \<times> (error + Investment)" where
  "create_investment db current_user investment_data =
     (let db_investment = new_Investment current_user (uuid_source db) investment_data;
          db1 = db\<lparr>investments := investments db @ [db_investment],
                   uuid_source := uuid_source db + 1\<rparr>
      in case generate_payment_schedule db1 db_investment of
           Inl e \<Rightarrow> (db1, Inl e)
         | Inr db2 \<Rightarrow> (db2, Inr db_investment))"

text \<open>
  The field constraints and validators of \<^verbatim>\<open>InvestmentBase\<close>, which a creation
  request has to pass before \<^verbatim>\<open>create_investment\<close> runs, for a request that gives a
  coupon rate.  The validator of \<^verbatim>\<open>issue_date\<close> compares with
  \<^verbatim>\<open>purchase_date\<close> only when that field is already among the validated values;
  the field is declared after \<^verbatim>\<open>issue_date\<close>.  The condition below asks for the
  comparison all the same, so a request that satisfies it passes whether or not the
  comparison is made.
\<close>

definition InvestmentCreate_valid :: "InvestmentCreate \<Rightarrow> bool" where
  "InvestmentCreate_valid d \<longleftrightarrow>
     (case ic_description d of None \<Rightarrow> True | Some s \<Rightarrow> length s \<le> 500) \<and>
     ic_face_value d > 0 \<and> ic_purchase_price d > 0 \<and>
     (case ic_annual_coupon_rate d of
        None \<Rightarrow> False
      | Some v \<Rightarrow>
          0 \<le> v \<and> v \<le> 1 \<and>
          \<not> (ic_investment_type d = TREASURY_NOTE \<and> v \<le> 0) \<and>
          \<not> (ic_investment_type d = TREASURY_BILL \<and> v \<noteq> 0)) \<and>
     (case ic_issue_date d of
        None \<Rightarrow> True
      | Some v \<Rightarrow> date_le v (ic_purchase_date d)) \<and>
     \<not> date_le (ic_maturity_date d) (ic_purchase_date d)"

section \<open>Investment update (routers/investments.py)\<close>

text \<open>
  A value bound to a query keeps its Python type.  The identifier columns are
  \<^verbatim>\<open>String(36)\<close> and hold \<^verbatim>\<open>str(uuid.uuid4())\<close> values, and
  \<^verbatim>\<open>current_user.id\<close> is such a string; the path parameter \<^verbatim>\<open>investment_id\<close>
  is declared \<^verbatim>\<open>uuid.UUID\<close> (line 149) and reaches the query as a \<^verbatim>\<open>UUID\<close>
  object.  A string and a \<^verbatim>\<open>UUID\<close> object are different values, whatever
  identifier they carry.
\<close>

datatype bound_value = Str uuid | Uuid uuid

text \<open>
  \<^verbatim>\<open>.first()\<close> on the query for the investment with the given identifier and owner,
  and the write of the changed row back in its place.
\<close>

fun replace_first :: "('a \<Rightarrow> bool) \<Rightarrow> 'a \<Rightarrow> 'a list \<Rightarrow> 'a list" where
  "replace_first P y [] = []"
| "replace_first P y (x # xs) = (if P x then y # xs else x # replace_first P y xs)"

text \<open>
  Lines 165 to 168: \<^verbatim>\<open>setattr\<close> of each field that the request set.  The request
  model has the two fields \<^verbatim>\<open>description\<close> and \<^verbatim>\<open>status\<close> only.
\<close>

definition apply_update :: "Investment \<Rightarrow> InvestmentUpdate \<Rightarrow> Investment" where
  "apply_update investment investment_update =
     (let investment1 =
            (case iu_description investment_update of
               None \<Rightarrow> investment
             | Some v \<Rightarrow> investment\<lparr>inv_description := v\<rparr>);
          investment2 =
            (case iu_status investment_update of
               None \<Rightarrow> investment1
             | Some v \<Rightarrow> investment1\<lparr>status := v\<rparr>)
      in investment2)"

text \<open>
  Lines 155 to 173 for a given filter of the query: the first row that passes the filter
  is changed and committed, and without such a row the request ends with status 404.
\<close>

definition update_first ::
  "(Investment \<Rightarrow> bool) \<Rightarrow> store \<Rightarrow> InvestmentUpdate \<Rightarrow> store \<times> (error + Investment)" where
  "update_first mine db investment_update =
     (case find mine (investments db) of
        None \<Rightarrow> (db, Inl (HTTPException_404 ''Investment not found''))
      | Some investment \<Rightarrow>
          (let investment' = apply_update investment investment_update
           in (db\<lparr>investments := replace_first mine investment' (investments db)\<rparr>,
               Inr investment')))"

text \<open>
  \<^verbatim>\<open>update_investment\<close>, lines 147 to 173.  The filter of lines 155 to 157 compares
  the identifier column with the \<^verbatim>\<open>UUID\<close> object of the path and the owner column
  with the string \<^verbatim>\<open>current_user.id\<close>.
\<close>

definition update_investment ::
  "store \<Rightarrow> uuid \<Rightarrow> uuid \<Rightarrow> InvestmentUpdate \<Rightarrow> store \<times> (error + Investment)" where
  "update_investment db current_user investment_id' investment_update =
     update_first
       (\<lambda>i. Str (inv_id i) = Uuid investment_id' \<and> Str (user_id i) = Str current_user)
       db investment_update"

section \<open>Decimal arithmetic\<close>

text \<open>
  Python evaluates \<^verbatim>\<open>Decimal\<close> operations in the default context: the exact result
  rounded to 28 significant digits, ties to the even digit.  The amounts are values of
  the columns \<^verbatim>\<open>Numeric(15, 2)\<close> and \<^verbatim>\<open>Numeric(5, 4)\<close>; their sums,
  differences, products and halves have fewer than 28 digits, so these operations are
  exact and are modelled by the operations on rational numbers.  A quotient need not have
  a finite decimal expansion, so the division is modelled with its rounding.

  \<open>adjusted q\<close> is the exponent of the leading digit of a positive \<open>q\<close>, found from
  the numbers of digits of its numerator and denominator.
\<close>

fun num_digits :: "nat \<Rightarrow> nat" where
  "num_digits n = (if n < 10 then 1 else Suc (num_digits (n div 10)))"

declare num_digits.simps [simp del]

definition pow10 :: "int \<Rightarrow> rat" where
  "pow10 k = (if 0 \<le> k then 10 ^ nat k else 1 / 10 ^ nat (- k))"

definition adjusted :: "rat \<Rightarrow> int" where
  "adjusted q =
     (let (a, b) = quotient_of q;
          d = int (num_digits (nat a)) - int (num_digits (nat b))
      in if pow10 d \<le> q then d else d - 1)"

definition round_half_even :: "rat \<Rightarrow> int" where
  "round_half_even q =
     (let f = \<lfloor>q\<rfloor>; r = q - of_int f
      in if r < 1 / 2 then f else if 1 / 2 < r then f + 1
         else if even f then f else f + 1)"

definition decimal_round :: "rat \<Rightarrow> rat" where
  "decimal_round q =
     (if q = 0 then 0
      else let e = adjusted \<bar>q\<bar> - 27
           in sgn q * of_int (round_half_even (\<bar>q\<bar> / pow10 e)) * pow10 e)"

text \<open>\<^verbatim>\<open>x / y\<close> on \<^verbatim>\<open>Decimal\<close> values.\<close>

definition decimal_div :: "rat \<Rightarrow> rat \<Rightarrow> error + rat" where
  "decimal_div x y =
     (if y = 0 then Inl (if x = 0 then InvalidOperation else DivisionByZero)
      else Inr (decimal_round (x / y)))"

section \<open>Portfolio aggregation (routers/investments.py)\<close>

record PortfolioSummary =
  total_investments :: nat
  active_investments :: nat
  total_face_value :: rat
  total_purchase_price :: rat
  expected_returns :: rat
  expected_profit :: rat
  portfolio_yield :: rat

text \<open>
  \<^verbatim>\<open>PaymentSchedule.payment_status.in_([PaymentStatus.PENDING, PaymentStatus.DUE])\<close>;
  a null status is in no list.
\<close>

definition pending_or_due :: "PaymentSchedule \<Rightarrow> bool" where
  "pending_or_due p \<longleftrightarrow> payment_status p = Some PENDING \<or> payment_status p = Some DUE"

text \<open>
  \<^verbatim>\<open>get_portfolio_summary\<close>, lines 268 to 306.  The loop of lines 286 to 293 is the
  \<open>foldl\<close>; line 296 divides only when the total purchase price is positive, and the
  product of the quotient with 100 is exact.
\<close>

definition get_portfolio_summary :: "store \<Rightarrow> uuid \<Rightarrow> error + PortfolioSummary" where
  "get_portfolio_summary db current_user =
     (let invs = filter (\<lambda>i. user_id i = current_user \<and> status i = Some ACTIVE)
                   (investments db);
          total = length invs;
          active = total;
          tfv = sum_list (map face_value invs);
          tpp = sum_list (map purchase_price invs);
          returns =
            foldl (\<lambda>acc investment.
                     acc + sum_list (map payment_amount
                             (filter (\<lambda>p. investment_id p = inv_id investment \<and> pending_or_due p)
                                (payment_schedules db))))
              0 invs;
          profit = returns - tpp
      in case (if tpp > 0
               then (case decimal_div profit tpp of Inl e \<Rightarrow> Inl e | Inr q \<Rightarrow> Inr (q * 100))
               else Inr 0) of
           Inl e \<Rightarrow> Inl e
         | Inr yield \<Rightarrow>
             Inr \<lparr>total_investments = total, active_investments = active,
                  total_face_value = tfv, total_purchase_price = tpp,
                  expected_returns = returns, expected_profit = profit,
                  portfolio_yield = yield\<rparr>)"

text \<open>
  The names that \<^verbatim>\<open>routers/investments.py\<close> binds at module level: the imports of
  lines 1 to 16, the router and the functions.  A name used in a function that is neither
  local nor among these (nor a built-in) raises \<^verbatim>\<open>NameError\<close> when it is evaluated.
  Line 5 imports \<^verbatim>\<open>datetime\<close> and \<^verbatim>\<open>date\<close> from the module
  \<^verbatim>\<open>datetime\<close>, and nothing else.
\<close>

definition module_names :: "string list" where
  "module_names =
     [''APIRouter'', ''Depends'', ''HTTPException'', ''status'', ''Query'',
      ''Session'', ''and_'', ''or_'', ''List'', ''Optional'', ''datetime'', ''date'',
      ''Decimal'', ''uuid'', ''get_db'', ''User'', ''Investment'', ''PaymentSchedule'',
      ''InvestmentType'', ''InvestmentStatus'', ''PaymentStatus'', ''InvestmentCreate'',
      ''InvestmentUpdate'', ''InvestmentResponse'', ''InvestmentWithPayments'',
      ''PaymentScheduleResponse'', ''PaymentScheduleUpdate'', ''PortfolioSummary'',
      ''PortfolioResponse'', ''UpcomingPayment'', ''SuccessResponse'', ''get_current_user'',
      ''router'', ''generate_payment_schedule'', ''create_investment'', ''get_investments'',
      ''get_investment'', ''update_investment'', ''delete_investment'',
      ''get_payment_schedule'', ''update_payment'', ''get_portfolio_summary'',
      ''get_upcoming_payments'', ''get_full_portfolio'']"

definition resolve_name :: "string \<Rightarrow> error + unit" where
  "resolve_name n = (if n \<in> set module_names then Inr () else Inl (NameError n))"

text \<open>
  \<^verbatim>\<open>d + timedelta(days=n)\<close> for a number of days \<open>n \<ge> 0\<close>, one day at a time;
  a date after the year 9999 raises \<^verbatim>\<open>OverflowError\<close>.
\<close>

definition next_day :: "date \<Rightarrow> date" where
  "next_day d =
     (if day d < monthrange (year d) (month d) then d\<lparr>day := day d + 1\<rparr>
      else if month d < 12 then \<lparr>year = year d, month = month d + 1, day = 1\<rparr>
      else \<lparr>year = year d + 1, month = 1, day = 1\<rparr>)"

fun date_add_days :: "date \<Rightarrow> nat \<Rightarrow> error + date" where
  "date_add_days d 0 = Inr d"
| "date_add_days d (Suc n) =
     (if year (next_day d) > MAXYEAR then Inl OverflowError
      else date_add_days (next_day d) n)"

record UpcomingPayment =
  up_id :: uuid
  up_investment_id :: uuid
  up_investment_description :: "string option"
  up_investment_type :: InvestmentType
  up_payment_date :: date
  up_payment_amount :: rat
  up_payment_type :: PaymentType
  up_payment_status :: "PaymentStatus option"
  up_description :: "string option"

text \<open>
  \<^verbatim>\<open>order_by(PaymentSchedule.payment_date)\<close> on the joined rows, as an insertion sort
  that keeps rows of equal date in table order.
\<close>

fun insert_by_date ::
  "PaymentSchedule \<times> Investment \<Rightarrow> (PaymentSchedule \<times> Investment) list \<Rightarrow>
   (PaymentSchedule \<times> Investment) list" where
  "insert_by_date x [] = [x]"
| "insert_by_date x (y # ys) =
     (if date_le (payment_date (fst x)) (payment_date (fst y)) then x # y # ys
      else y # insert_by_date x ys)"

definition order_by_payment_date ::
  "(PaymentSchedule \<times> Investment) list \<Rightarrow> (PaymentSchedule \<times> Investment) list" where
  "order_by_payment_date rows = foldr insert_by_date rows []"

text \<open>
  The query of lines 318 to 327 and the result list of lines 329 to 342, for the end of
  the window computed by line 316.
\<close>

definition upcoming_payments_query ::
  "store \<Rightarrow> uuid \<Rightarrow> date \<Rightarrow> date \<Rightarrow> nat \<Rightarrow> UpcomingPayment list" where
  "upcoming_payments_query db current_user today end_date limit =
     (let payments =
            take limit (order_by_payment_date
              (filter
                 (\<lambda>(payment, investment).
                    investment_id payment = inv_id investment \<and>
                    user_id investment = current_user \<and>
                    pending_or_due payment \<and>
                    date_le today (payment_date payment) \<and>
                    date_le (payment_date payment) end_date)
                 (List.product (payment_schedules db) (investments db))))
      in map (\<lambda>(payment, investment).
                \<lparr>up_id = pay_id payment,
                 up_investment_id = investment_id payment,
                 up_investment_description = inv_description investment,
                 up_investment_type = investment_type investment,
                 up_payment_date = payment_date payment,
                 up_payment_amount = payment_amount payment,
                 up_payment_type = payment_type payment,
                 up_payment_status = payment_status payment,
                 up_description = description payment\<rparr>)
           payments)"

text \<open>
  \<^verbatim>\<open>get_upcoming_payments\<close>, lines 308 to 342, with the date of the call as the
  argument \<open>today\<close>.  Line 316 evaluates \<^verbatim>\<open>date.today()\<close> and then the name
  \<^verbatim>\<open>timedelta\<close>.
\<close>

definition get_upcoming_payments ::
  "store \<Rightarrow> uuid \<Rightarrow> date \<Rightarrow> nat \<Rightarrow> nat \<Rightarrow> error + UpcomingPayment list" where
  "get_upcoming_payments db current_user today days_ahead limit =
     (case resolve_name ''timedelta'' of
        Inl e \<Rightarrow> Inl e
      | Inr _ \<Rightarrow>
          (case date_add_days today days_ahead of
             Inl e \<Rightarrow> Inl e
           | Inr end_date \<Rightarrow>
               Inr (upcoming_payments_query db current_user today end_date limit)))"

section \<open>Notions used to state the properties\<close>

text \<open>The payment events persisted for one investment, in table order.\<close>

definition events_for :: "store \<Rightarrow> uuid \<Rightarrow> PaymentSchedule list" where
  "events_for db iid = filter (\<lambda>p. investment_id p = iid) (payment_schedules db)"

text \<open>
  The schedule that generation produces for an investment: the events persisted for it
  once \<open>generate_payment_schedule\<close> has returned, or the error raised.
\<close>

definition generated_schedule :: "store \<Rightarrow> Investment \<Rightarrow> error + PaymentSchedule list" where
  "generated_schedule db iv =
     (case generate_payment_schedule db iv of
        Inl e \<Rightarrow> Inl e
      | Inr db' \<Rightarrow> Inr (events_for db' (inv_id iv)))"

text \<open>An event seen as its date, amount and kind, and a schedule seen so.\<close>

definition event_view :: "PaymentSchedule \<Rightarrow> date \<times> rat \<times> PaymentType" where
  "event_view p = (payment_date p, payment_amount p, payment_type p)"

definition schedule_view ::
  "store \<Rightarrow> Investment \<Rightarrow> error + (date \<times> rat \<times> PaymentType) list" where
  "schedule_view db iv = map_sum id (map event_view) (generated_schedule db iv)"

text \<open>
  The objects that generation registers with the session for an investment, before the
  commit inserts them; and the rows that the insert of the objects \<open>ps\<close> stores
  under the identifiers \<open>n\<close>, \<open>n + 1\<close>, ...
\<close>

definition scheduled_rows :: "Investment \<Rightarrow> error + PaymentSchedule_init list" where
  "scheduled_rows iv =
     (case investment_type iv of
        TREASURY_NOTE \<Rightarrow>
          (case issue_date iv of
             None \<Rightarrow> Inl TypeError
           | Some a \<Rightarrow>
               (case relativedelta_add 6 a of
                  Inl e \<Rightarrow> Inl e
                | Inr d \<Rightarrow>
                    note_loop [] iv ((face_value iv * annual_coupon_rate iv) / 2) d 0))
      | TREASURY_BILL \<Rightarrow>
          Inr [new_PaymentSchedule (inv_id iv) (maturity_date iv) (face_value iv) PRINCIPAL
                 ''Treasury bill maturity payment''])"

definition rows_with_ids :: "PaymentSchedule_init list \<Rightarrow> uuid \<Rightarrow> PaymentSchedule list" where
  "rows_with_ids ps n = map (\<lambda>(p, k). insert_payment k p) (zip ps [n ..< n + length ps])"

text \<open>
  The semi-annual cadence as the specification words it: the first date is the anchor
  advanced by six months, every later date is the date before it advanced by six
  months, every date is on or before the maturity date, and the date that would follow
  the last one is after the maturity date.
\<close>

fun semiannual_dates :: "date \<Rightarrow> date \<Rightarrow> date list \<Rightarrow> bool" where
  "semiannual_dates prev mat [] =
     (case relativedelta_add 6 prev of Inl e \<Rightarrow> False | Inr d \<Rightarrow> \<not> date_le d mat)"
| "semiannual_dates prev mat (d # ds) =
     (relativedelta_add 6 prev = Inr d \<and> date_le d mat \<and> semiannual_dates d mat ds)"


text \<open>
  Whether the cadence that starts at the date \<open>cur\<close> meets the maturity date: \<open>cur\<close>
  is the maturity date, or is before it and the cadence from the date six months later
  meets it.  This depends on the two dates alone.  \<open>lands_on_maturity\<close> says so of the
  cadence of a note, which starts six months after its issue date.
\<close>

function cadence_reaches :: "date \<Rightarrow> date \<Rightarrow> bool" where
  "cadence_reaches cur mat =
     (if date_le cur mat then
        (cur = mat \<or>
         (case relativedelta_add 6 cur of
            Inl e \<Rightarrow> False
          | Inr next_date \<Rightarrow> cadence_reaches next_date mat))
      else False)"
  by pat_completeness auto
termination
proof (relation "measures [\<lambda>(cur, mat). year mat + 1 - year cur,
                           \<lambda>(cur, mat). 13 - month cur]", goal_cases)
  case 1
  show ?case by simp
next
  case (2 cur mat next_date)
  from \<open>date_le cur mat\<close> have "year cur \<le> year mat"
    by (auto simp: date_le_def)
  moreover from \<open>relativedelta_add 6 cur = Inr next_date\<close>
  have "(year next_date = year cur + 1) \<or>
        (year next_date = year cur \<and> month next_date = month cur + 6 \<and> month cur + 6 \<le> 12)"
    by (auto simp: relativedelta_add_def Let_def split: if_splits)
  ultimately show ?case by auto
qed

declare cadence_reaches.simps [simp del]

text \<open>
  The \<open>k\<close>-th date of the cadence that starts at \<open>d\<close>: \<open>d\<close> itself for \<open>k = 0\<close>, and
  each later date six months after the date before it.
\<close>

fun cadence_date :: "date \<Rightarrow> nat \<Rightarrow> error + date" where
  "cadence_date d 0 = Inr d"
| "cadence_date d (Suc k) =
     (case relativedelta_add 6 d of
        Inl e \<Rightarrow> Inl e
      | Inr next_date \<Rightarrow> cadence_date next_date k)"

definition lands_on_maturity :: "Investment \<Rightarrow> bool" where
  "lands_on_maturity iv =
     (case issue_date iv of
        None \<Rightarrow> False
      | Some a \<Rightarrow>
          (case relativedelta_add 6 a of
             Inl e \<Rightarrow> False
           | Inr d \<Rightarrow> cadence_reaches d (maturity_date iv)))"

text \<open>
  The rounding of the column as a function on amounts: the amount that a stored row
  gives back for an amount handed to the insert.
\<close>

definition stored_amount :: "rat \<Rightarrow> rat" where
  "stored_amount q = from_numeric 2 (to_numeric 2 q)"

text \<open>What the loop registers, in terms of one object and of the dates of all objects.\<close>

definition note_row_ok :: "Investment \<Rightarrow> rat \<Rightarrow> PaymentSchedule_init \<Rightarrow> bool" where
  "note_row_ok iv c p \<longleftrightarrow>
     init_investment_id p = inv_id iv \<and>
     (if init_payment_date p = maturity_date iv
      then init_payment_type p = FINAL_PAYMENT \<and> init_payment_amount p = c + face_value iv
      else init_payment_type p = COUPON \<and> init_payment_amount p = c)"

definition loop_dates :: "date \<Rightarrow> date \<Rightarrow> date list \<Rightarrow> bool" where
  "loop_dates cur mat ds =
     (case ds of [] \<Rightarrow> \<not> date_le cur mat
      | d # ds' \<Rightarrow> d = cur \<and> date_le cur mat \<and> semiannual_dates cur mat ds')"

text \<open>An event that repays the principal, alone or with the last coupon.\<close>

definition principal_like :: "PaymentSchedule \<Rightarrow> bool" where
  "principal_like p \<longleftrightarrow> payment_type p = PRINCIPAL \<or> payment_type p = FINAL_PAYMENT"

text \<open>\<^verbatim>\<open>date(y, m, d)\<close>, and a store with empty tables.\<close>

definition Date :: "nat \<Rightarrow> nat \<Rightarrow> nat \<Rightarrow> date" where
  "Date y m d = \<lparr>year = y, month = m, day = d\<rparr>"

definition empty_store :: store where
  "empty_store = \<lparr>investments = [], payment_schedules = [], uuid_source = 0\<rparr>"

text \<open>
  Creation requests used as concrete inputs.  The bill: face value 50000, bought at 48000
  on 2024-03-01, maturing on 2024-09-01.  The note of the specification's example: issued
  and bought on 2024-01-15, maturing on 2026-01-15, rate 0.10, face value 100000.  The
  same note maturing on 2026-03-15, which is not a whole number of half years after the
  issue date.  The same note issued and bought on 2024-08-31 and maturing on 2026-08-31.
  The same note without an issue date.  The same note with face value 1000.01 and rate
  0.0333, whose half-yearly coupon 16.6501665 has more than two decimals.
\<close>

definition bill_request :: InvestmentCreate where
  "bill_request =
     \<lparr>ic_investment_type = TREASURY_BILL, ic_description = None, ic_face_value = 50000,
      ic_purchase_price = 48000, ic_annual_coupon_rate = Some 0, ic_issue_date = None,
      ic_purchase_date = Date 2024 3 1, ic_maturity_date = Date 2024 9 1\<rparr>"

definition note_request :: InvestmentCreate where
  "note_request =
     \<lparr>ic_investment_type = TREASURY_NOTE, ic_description = None, ic_face_value = 100000,
      ic_purchase_price = 98000, ic_annual_coupon_rate = Some (1 / 10),
      ic_issue_date = Some (Date 2024 1 15),
      ic_purchase_date = Date 2024 1 15, ic_maturity_date = Date 2026 1 15\<rparr>"

definition off_cadence_request :: InvestmentCreate where
  "off_cadence_request = note_request\<lparr>ic_maturity_date := Date 2026 3 15\<rparr>"


definition no_issue_date_request :: InvestmentCreate where
  "no_issue_date_request = note_request\<lparr>ic_issue_date := None\<rparr>"

definition odd_amount_request :: InvestmentCreate where
  "odd_amount_request =
     note_request\<lparr>ic_face_value := 100001 / 100, ic_annual_coupon_rate := Some (333 / 10000)\<rparr>"

text \<open>The rows stored for the requests, for the user 1 and with the identifier 7.\<close>

definition example_bill :: Investment where
  "example_bill = new_Investment 1 7 bill_request"

definition example_note :: Investment where
  "example_note = new_Investment 1 7 note_request"

definition off_cadence_note :: Investment where
  "off_cadence_note = new_Investment 1 7 off_cadence_request"


definition no_issue_date_note :: Investment where
  "no_issue_date_note = new_Investment 1 7 no_issue_date_request"

definition odd_amount_note :: Investment where
  "odd_amount_note = new_Investment 1 7 odd_amount_request"

text \<open>A row without its identifier, to compare rows written by different commits.\<close>

definition row_content :: "PaymentSchedule \<Rightarrow> PaymentSchedule" where
  "row_content p = p\<lparr>pay_id := 0\<rparr>"

text \<open>
  A store that already holds two events of the investment 7, one of them paid, and an
  event of another investment.
\<close>

definition stale_store :: store where
  "stale_store =
     \<lparr>investments = [],
      payment_schedules =
        [insert_payment 20 (new_PaymentSchedule 7 (Date 2024 2 1) 111 COUPON ''old''),
         insert_payment 21 (new_PaymentSchedule 8 (Date 2024 5 1) 222 PRINCIPAL ''other''),
         (insert_payment 22 (new_PaymentSchedule 7 (Date 2024 8 1) 333 COUPON ''old''))
           \<lparr>payment_status := Some PAID\<rparr>],
      uuid_source = 23\<rparr>"

text \<open>
  The payment events that count as expected returns of a user: pending or due, and of an
  active investment of the user.
\<close>

definition expected_events :: "store \<Rightarrow> uuid \<Rightarrow> PaymentSchedule list" where
  "expected_events db uid =
     filter (\<lambda>p. pending_or_due p \<and>
                 (\<exists>i\<in>set (investments db).
                    inv_id i = investment_id p \<and> user_id i = uid \<and> status i = Some ACTIVE))
       (payment_schedules db)"

text \<open>
  Investment identifiers are the primary key of their table: no two rows share one, and
  every one was drawn from the identifier counter.
\<close>

definition store_ids_ok :: "store \<Rightarrow> bool" where
  "store_ids_ok db \<longleftrightarrow>
     distinct (map inv_id (investments db)) \<and>
     (\<forall>k\<in>set (map inv_id (investments db)). k < uuid_source db)"

text \<open>
  A store with one active investment of the user 1 that has a paid event of amount 1000
  and a pending event of amount 2000.
\<close>

definition summary_store :: store where
  "summary_store =
     \<lparr>investments = [new_Investment 1 7 note_request],
      payment_schedules =
        [(insert_payment 8 (new_PaymentSchedule 7 (Date 2024 7 15) 1000 COUPON ''first''))
           \<lparr>payment_status := Some PAID\<rparr>,
         insert_payment 9 (new_PaymentSchedule 7 (Date 2025 1 15) 2000 COUPON ''second'')],
      uuid_source = 10\<rparr>"

text \<open>The summary of a user without active investments.\<close>

definition zero_summary :: PortfolioSummary where
  "zero_summary =
     \<lparr>total_investments = 0, active_investments = 0, total_face_value = 0,
      total_purchase_price = 0, expected_returns = 0, expected_profit = 0,
      portfolio_yield = 0\<rparr>"

text \<open>
  The stores that the creation of one bill leaves: a bill of face value 3 bought at 2,
  and a bill of face value 4 bought at 3.
\<close>

definition half_store :: store where
  "half_store =
     fst (create_investment empty_store 1
            (bill_request\<lparr>ic_face_value := 3, ic_purchase_price := 2\<rparr>))"

definition third_store :: store where
  "third_store =
     fst (create_investment empty_store 1
            (bill_request\<lparr>ic_face_value := 4, ic_purchase_price := 3\<rparr>))"

text \<open>The columns of an investment that no update request can name.\<close>

definition frozen_fields ::
  "Investment \<Rightarrow>
   uuid \<times> uuid \<times> InvestmentType \<times> rat \<times> rat \<times> rat \<times> date option \<times> date \<times> date" where
  "frozen_fields i =
     (inv_id i, user_id i, investment_type i, face_value i, purchase_price i,
      annual_coupon_rate i, issue_date i, purchase_date i, maturity_date i)"

text \<open>
  A store with a bill of the user 2 and the example note of the user 1 with one of its
  events, and an update request that sets both fields.
\<close>

definition updated_store :: store where
  "updated_store =
     \<lparr>investments = [new_Investment 2 6 bill_request, example_note],
      payment_schedules =
        [insert_payment 8 (new_PaymentSchedule 7 (Date 2024 7 15) 5000 COUPON ''first'')],
      uuid_source = 9\<rparr>"

definition example_update :: InvestmentUpdate where
  "example_update =
     \<lparr>iu_description = Some (Some ''sold early''), iu_status = Some (Some SOLD)\<rparr>"

text \<open>
  A store with the example note of the user 1 and three pending events of it, dated
  2024-06-01, ten days later and a hundred days later.
\<close>

definition upcoming_store :: store where
  "upcoming_store =
     \<lparr>investments = [example_note],
      payment_schedules =
        [insert_payment 8 (new_PaymentSchedule 7 (Date 2024 6 1) 5000 COUPON ''today''),
         insert_payment 9 (new_PaymentSchedule 7 (Date 2024 6 11) 5000 COUPON ''in 10 days''),
         insert_payment 10 (new_PaymentSchedule 7 (Date 2024 9 9) 5000 COUPON ''in 100 days'')],
      uuid_source = 11\<rparr>"

section \<open>Numeric columns\<close>

text \<open>
  A value that is already at the scale of the column is stored as it is, and the
  rounding lies within half a unit of the last decimal.
\<close>

lemma floor_of_int_add_half: "\<lfloor>(of_int k :: rat) + 1 / 2\<rfloor> = k"
  by (rule floor_unique) simp_all

lemma to_numeric_of_int_mult: "to_numeric s (of_int k / 10 ^ s) = k"
proof (cases "0 \<le> k")
  case True
  then have "(0::rat) \<le> of_int k / 10 ^ s" by simp
  then show ?thesis
    by (simp add: to_numeric_def floor_of_int_add_half)
next
  case False
  then have neg: "\<not> (0::rat) \<le> of_int k / 10 ^ s"
    by (simp add: divide_le_0_iff not_le zero_less_divide_iff divide_less_0_iff)
  have "- (of_int k / 10 ^ s) * 10 ^ s + 1 / 2 = (of_int (- k) :: rat) + 1 / 2"
    by simp
  then have "\<lfloor>- (of_int k / 10 ^ s) * 10 ^ s + 1 / (2::rat)\<rfloor> = - k"
    by (simp only: floor_of_int_add_half)
  with neg show ?thesis
    by (simp add: to_numeric_def)
qed

lemma to_numeric_from_numeric: "to_numeric s (from_numeric s k) = k"
  by (simp add: from_numeric_def to_numeric_of_int_mult)

lemma stored_amount_from_numeric: "stored_amount (from_numeric 2 k) = from_numeric 2 k"
  by (simp add: stored_amount_def to_numeric_from_numeric)

lemma stored_amount_payment_amount: "stored_amount (payment_amount p) = payment_amount p"
  by (simp add: payment_amount_def stored_amount_from_numeric)

lemma stored_amount_face_value: "stored_amount (face_value iv) = face_value iv"
  by (simp add: face_value_def stored_amount_from_numeric)


lemma stored_amount_near: "\<bar>stored_amount q - q\<bar> \<le> 1 / 200"
proof -
  have fl: "\<bar>of_int \<lfloor>x + 1 / 2\<rfloor> - x\<bar> \<le> 1 / 2" for x :: rat
  proof -
    have "of_int \<lfloor>x + 1 / 2\<rfloor> \<le> x + 1 / 2" and "x + 1 / 2 < of_int \<lfloor>x + 1 / 2\<rfloor> + 1"
      by linarith+
    then show ?thesis by linarith
  qed
  have "\<bar>of_int (to_numeric 2 q) - q * 100\<bar> \<le> 1 / 2"
  proof (cases "0 \<le> q")
    case True
    with fl [of "q * 100"] show ?thesis by (simp add: to_numeric_def)
  next
    case False
    have "\<bar>of_int \<lfloor>- q * 100 + 1 / 2\<rfloor> - (- q * 100)\<bar> \<le> 1 / 2"
      by (rule fl)
    then have "\<bar>of_int (- \<lfloor>- q * 100 + 1 / 2\<rfloor>) - q * 100\<bar> \<le> 1 / 2"
      unfolding of_int_minus by linarith
    with False show ?thesis by (simp add: to_numeric_def)
  qed
  then have "\<bar>(of_int (to_numeric 2 q) - q * 100) / 100\<bar> \<le> (1 / 2) / 100"
    by (simp only: abs_divide abs_numeral divide_right_mono zero_le_numeral)
  also have "(of_int (to_numeric 2 q) - q * 100) / 100 = stored_amount q - q"
    by (simp add: stored_amount_def from_numeric_def diff_divide_distrib)
  finally show ?thesis by simp
qed

text \<open>The rounding of numerals and of quotients of numerals, for evaluation.\<close>

lemma to_numeric_quotient:
  assumes "0 \<le> a" and "0 < b"
  shows "to_numeric s (of_int a / of_int b) = (2 * a * 10 ^ s + b) div (2 * b)"
proof -
  have nonneg: "(0::rat) \<le> of_int a / of_int b" using assms by simp
  have "(of_int a / of_int b :: rat) * 10 ^ s + 1 / 2 =
        of_int (2 * a * 10 ^ s + b) / of_int (2 * b)"
    using assms by (simp add: field_simps)
  then have "\<lfloor>(of_int a / of_int b :: rat) * 10 ^ s + 1 / 2\<rfloor> =
             (2 * a * 10 ^ s + b) div (2 * b)"
    by (simp only: floor_divide_of_int_eq)
  with nonneg show ?thesis by (simp add: to_numeric_def)
qed

lemma to_numeric_of_int: "to_numeric s (of_int k) = k * 10 ^ s"
proof -
  have "(of_int k :: rat) = of_int (k * 10 ^ s) / 10 ^ s" by simp
  then have "to_numeric s (of_int k) = to_numeric s (of_int (k * 10 ^ s) / 10 ^ s)"
    by (rule arg_cong)
  then show ?thesis by (simp only: to_numeric_of_int_mult)
qed

lemma to_numeric_numerals:
  "to_numeric s 0 = 0"
  "to_numeric s 1 = 10 ^ s"
  "to_numeric s (numeral m) = numeral m * 10 ^ s"
  "to_numeric s (numeral m / numeral n) =
     (2 * numeral m * 10 ^ s + numeral n) div (2 * numeral n)"
  "to_numeric s (1 / numeral n) = (2 * 10 ^ s + numeral n) div (2 * numeral n)"
proof -
  show "to_numeric s 0 = 0"
    using to_numeric_of_int [of s 0] by simp
  show "to_numeric s 1 = 10 ^ s"
    using to_numeric_of_int [of s 1] by simp
  show "to_numeric s (numeral m) = numeral m * 10 ^ s"
    using to_numeric_of_int [of s "numeral m"] by simp
  show "to_numeric s (numeral m / numeral n) =
     (2 * numeral m * 10 ^ s + numeral n) div (2 * numeral n)"
    using to_numeric_quotient [of "numeral m" "numeral n" s] by simp
  show "to_numeric s (1 / numeral n) = (2 * 10 ^ s + numeral n) div (2 * numeral n)"
    using to_numeric_quotient [of 1 "numeral n" s] by simp
qed

lemmas numeric_eval =
  to_numeric_numerals from_numeric_def face_value_def purchase_price_def
  annual_coupon_rate_def payment_amount_def stored_amount_def insert_payment_def

section \<open>Committing the registered rows\<close>

lemma insert_rows_investments: "investments (insert_rows db ps) = investments db"
  by (induction ps arbitrary: db) simp_all

lemma insert_rows_uuid_source: "uuid_source (insert_rows db ps) = uuid_source db + length ps"
  by (induction ps arbitrary: db) simp_all

lemma insert_rows_payment_schedules:
  "payment_schedules (insert_rows db ps) =
     payment_schedules db @
     map (\<lambda>(p, k). insert_payment k p) (zip ps [uuid_source db ..< uuid_source db + length ps])"
proof (induction ps arbitrary: db)
  case Nil
  show ?case by simp
next
  case (Cons p ps)
  show ?case
    unfolding insert_rows.simps Cons.IH
    by (simp add: upt_conv_Cons del: upt_Suc)
qed

section \<open>Calendar dates\<close>

lemma date_le_refl: "date_le a a"
  by (simp add: date_le_def)

lemma date_le_trans: "date_le a b \<Longrightarrow> date_le b c \<Longrightarrow> date_le a c"
  by (auto simp: date_le_def)

lemma date_le_antisym: "date_le a b \<Longrightarrow> date_le b a \<Longrightarrow> a = (b::date)"
  by (cases a, cases b) (auto simp: date_le_def)

lemma date_le_total: "date_le a b \<or> date_le b a"
  by (auto simp: date_le_def)

lemma relativedelta_add_later:
  assumes "relativedelta_add 6 d = Inr d'"
  shows "date_le d d'" and "\<not> date_le d' d"
  using assms by (auto simp: relativedelta_add_def date_le_def Let_def split: if_splits)

lemma relativedelta_add_valid:
  assumes "valid_date d" and "relativedelta_add 6 d = Inr d'"
  shows "valid_date d'"
proof -
  have "1 \<le> monthrange y m" for y m by (simp add: monthrange_def)
  then have "1 \<le> min (monthrange y m) (day d)" for y m
    using assms(1) by (simp add: valid_date_def)
  with assms show ?thesis
    by (auto simp: valid_date_def relativedelta_add_def Let_def split: if_splits)
qed

lemma relativedelta_add_in_range:
  assumes "year d < MAXYEAR"
  shows "\<exists>d'. relativedelta_add 6 d = Inr d'"
  using assms by (simp add: relativedelta_add_def Let_def)

lemma semiannual_dates_after:
  "semiannual_dates prev mat ds \<Longrightarrow> d \<in> set ds \<Longrightarrow> date_le prev d \<and> \<not> date_le d prev"
proof (induction ds arbitrary: prev)
  case Nil
  then show ?case by simp
next
  case (Cons x ds)
  from Cons.prems(1) have step: "relativedelta_add 6 prev = Inr x"
    and rest: "semiannual_dates x mat ds" by simp_all
  note later = relativedelta_add_later [OF step]
  show ?case
  proof (cases "d = x")
    case True
    with later show ?thesis by simp
  next
    case False
    with Cons.prems(2) have "d \<in> set ds" by simp
    from Cons.IH [OF rest this] have "date_le x d" "\<not> date_le d x" by simp_all
    with later show ?thesis
      by (meson date_le_trans)
  qed
qed

lemma semiannual_dates_distinct: "semiannual_dates prev mat ds \<Longrightarrow> distinct ds"
proof (induction ds arbitrary: prev)
  case Nil
  show ?case by simp
next
  case (Cons x ds)
  from Cons.prems have rest: "semiannual_dates x mat ds" by simp
  have "x \<notin> set ds"
    using semiannual_dates_after [OF rest, of x] by (auto simp: date_le_refl)
  with Cons.IH [OF rest] show ?case by simp
qed

lemma semiannual_dates_le: "semiannual_dates prev mat ds \<Longrightarrow> d \<in> set ds \<Longrightarrow> date_le d mat"
  by (induction ds arbitrary: prev) auto

section \<open>The coupon loop\<close>

lemma note_loop_Inr:
  "note_loop pending iv c cur n = Inr r \<Longrightarrow>
   \<exists>ps. r = pending @ ps \<and> loop_dates cur (maturity_date iv) (map init_payment_date ps) \<and>
        (\<forall>p\<in>set ps. note_row_ok iv c p)"
proof (induction pending iv c cur n arbitrary: r rule: note_loop.induct)
  case (1 pending iv c cur n)
  show ?case
  proof (cases "date_le cur (maturity_date iv)")
    case False
    with "1.prems" have "r = pending"
      by (simp add: note_loop.simps [of pending])
    with False show ?thesis by (simp add: loop_dates_def)
  next
    case True
    define payment where "payment =
      (if cur = maturity_date iv then
         new_PaymentSchedule (inv_id iv) cur (c + face_value iv) FINAL_PAYMENT
           ''Final coupon payment + Principal repayment''
       else
         new_PaymentSchedule (inv_id iv) cur c COUPON
           (''Semi-annual coupon payment #'' @ str_nat (n + 1)))"
    have unfold: "note_loop pending iv c cur n =
        (case relativedelta_add 6 cur of
           Inl e \<Rightarrow> Inl e
         | Inr nxt \<Rightarrow> note_loop (db_add pending payment) iv c nxt (n + 1))"
      by (subst note_loop.simps) (simp only: True if_True Let_def payment_def)
    from "1.prems" obtain nxt where nxt: "relativedelta_add 6 cur = Inr nxt"
      and rec: "note_loop (db_add pending payment) iv c nxt (n + 1) = Inr r"
      unfolding unfold by (auto split: sum.splits)
    from "1.IH" [OF True refl refl refl nxt, of r] rec
    obtain ps where r: "r = db_add pending payment @ ps"
      and dates: "loop_dates nxt (maturity_date iv) (map init_payment_date ps)"
      and ok: "\<forall>p\<in>set ps. note_row_ok iv c p"
      unfolding payment_def by blast
    have pd: "init_payment_date payment = cur"
      by (simp add: payment_def new_PaymentSchedule_def)
    have pok: "note_row_ok iv c payment"
      by (simp add: payment_def new_PaymentSchedule_def note_row_ok_def)
    have "semiannual_dates cur (maturity_date iv) (map init_payment_date ps)"
      using dates nxt by (cases ps) (simp_all add: loop_dates_def)
    with True pd have "loop_dates cur (maturity_date iv) (map init_payment_date (payment # ps))"
      by (simp add: loop_dates_def)
    moreover have "r = pending @ (payment # ps)"
      using r by (simp add: db_add_def)
    moreover have "\<forall>p\<in>set (payment # ps). note_row_ok iv c p"
      using ok pok by simp
    ultimately show ?thesis by blast
  qed
qed

lemma note_loop_succeeds:
  "year (maturity_date iv) < MAXYEAR \<Longrightarrow> \<exists>r. note_loop pending iv c cur n = Inr r"
proof (induction pending iv c cur n rule: note_loop.induct)
  case (1 pending iv c cur n)
  show ?case
  proof (cases "date_le cur (maturity_date iv)")
    case False
    then show ?thesis by (simp add: note_loop.simps [of pending])
  next
    case True
    then have "year cur \<le> year (maturity_date iv)" by (auto simp: date_le_def)
    with "1.prems" have "year cur < MAXYEAR" by simp
    from relativedelta_add_in_range [OF this]
    obtain nxt where nxt: "relativedelta_add 6 cur = Inr nxt" ..
    from "1.IH" [OF True refl refl refl nxt "1.prems"]
    show ?thesis
      by (subst note_loop.simps) (simp only: True if_True Let_def nxt sum.case)
  qed
qed


section \<open>Generation as delete and insert\<close>

lemma length_rows_with_ids: "length (rows_with_ids ps n) = length ps"
  by (simp add: rows_with_ids_def)

lemma map_rows_with_ids:
  assumes "\<And>p k. f (insert_payment k p) = g p"
  shows "map f (rows_with_ids ps n) = map g ps"
proof -
  have "map f (rows_with_ids ps n) = map (g \<circ> fst) (zip ps [n ..< n + length ps])"
    by (simp add: rows_with_ids_def assms case_prod_unfold comp_def)
  also have "\<dots> = map g (map fst (zip ps [n ..< n + length ps]))"
    by (simp only: map_map)
  also have "map fst (zip ps [n ..< n + length ps]) = ps"
    by (simp add: map_fst_zip)
  finally show ?thesis .
qed

lemma map_pay_id_rows_with_ids: "map pay_id (rows_with_ids ps n) = [n ..< n + length ps]"
proof -
  have "map pay_id (rows_with_ids ps n) = map snd (zip ps [n ..< n + length ps])"
    by (simp add: rows_with_ids_def insert_payment_def case_prod_unfold comp_def)
  also have "\<dots> = [n ..< n + length ps]"
    by (simp add: map_snd_zip)
  finally show ?thesis .
qed

lemma in_rows_with_ids:
  "p \<in> set (rows_with_ids ps n) \<Longrightarrow> \<exists>q\<in>set ps. \<exists>k. p = insert_payment k q"
  by (auto simp: rows_with_ids_def dest: set_zip_leftD)

lemma insert_rows_as_rows_with_ids:
  "payment_schedules (insert_rows db ps) = payment_schedules db @ rows_with_ids ps (uuid_source db)"
  by (simp add: insert_rows_payment_schedules rows_with_ids_def)

lemma events_for_insert_rows:
  assumes "\<forall>p\<in>set ps. init_investment_id p = iid"
  shows "events_for (insert_rows db ps) iid = events_for db iid @ rows_with_ids ps (uuid_source db)"
proof -
  have "\<forall>p\<in>set (rows_with_ids ps (uuid_source db)). investment_id p = iid"
    using assms by (auto simp: insert_payment_def dest!: in_rows_with_ids)
  then have "filter (\<lambda>p. investment_id p = iid) (rows_with_ids ps (uuid_source db)) =
             rows_with_ids ps (uuid_source db)"
    by (simp add: filter_id_conv)
  then show ?thesis
    by (simp add: events_for_def insert_rows_as_rows_with_ids)
qed

lemma events_for_insert_rows_other:
  assumes "\<forall>p\<in>set ps. init_investment_id p \<noteq> iid"
  shows "events_for (insert_rows db ps) iid = events_for db iid"
proof -
  have "\<forall>p\<in>set (rows_with_ids ps (uuid_source db)). investment_id p \<noteq> iid"
    using assms by (auto simp: insert_payment_def dest!: in_rows_with_ids)
  then have "filter (\<lambda>p. investment_id p = iid) (rows_with_ids ps (uuid_source db)) = []"
    by (simp add: filter_empty_conv)
  then show ?thesis
    by (simp add: events_for_def insert_rows_as_rows_with_ids)
qed

lemma generate_payment_schedule_rows:
  "generate_payment_schedule db iv =
     (case scheduled_rows iv of
        Inl e \<Rightarrow> Inl e
      | Inr ps \<Rightarrow>
          Inr (insert_rows
                 (db\<lparr>payment_schedules :=
                       filter (\<lambda>p. investment_id p \<noteq> inv_id iv) (payment_schedules db)\<rparr>) ps))"
  by (cases "investment_type iv")
     (simp_all add: generate_payment_schedule_def scheduled_rows_def Let_def db_add_def
        split: option.splits sum.splits)

lemma scheduled_rows_investment_id:
  assumes "scheduled_rows iv = Inr ps"
  shows "\<forall>p\<in>set ps. init_investment_id p = inv_id iv"
proof (cases "investment_type iv")
  case TREASURY_NOTE
  with assms obtain d where
    "note_loop [] iv ((face_value iv * annual_coupon_rate iv) / 2) d 0 = Inr ps"
    by (auto simp: scheduled_rows_def split: option.splits sum.splits)
  from note_loop_Inr [OF this] show ?thesis
    by (auto simp: note_row_ok_def)
next
  case TREASURY_BILL
  with assms show ?thesis
    by (auto simp: scheduled_rows_def new_PaymentSchedule_def)
qed

lemma generated_schedule_rows:
  "generated_schedule db iv =
     (case scheduled_rows iv of
        Inl e \<Rightarrow> Inl e
      | Inr ps \<Rightarrow> Inr (rows_with_ids ps (uuid_source db)))"
proof (cases "scheduled_rows iv")
  case (Inl e)
  then show ?thesis
    by (simp add: generated_schedule_def generate_payment_schedule_rows)
next
  case (Inr ps)
  let ?db1 = "db\<lparr>payment_schedules :=
                  filter (\<lambda>p. investment_id p \<noteq> inv_id iv) (payment_schedules db)\<rparr>"
  have "events_for ?db1 (inv_id iv) = []"
    by (simp add: events_for_def filter_empty_conv)
  with events_for_insert_rows [OF scheduled_rows_investment_id [OF Inr], of ?db1]
  show ?thesis using Inr
    by (simp add: generated_schedule_def generate_payment_schedule_rows)
qed

lemma note_scheduled_rows:
  assumes "investment_type iv = TREASURY_NOTE" and "scheduled_rows iv = Inr ps"
  shows "\<exists>a. issue_date iv = Some a \<and>
             semiannual_dates a (maturity_date iv) (map init_payment_date ps) \<and>
             (\<forall>p\<in>set ps. note_row_ok iv ((face_value iv * annual_coupon_rate iv) / 2) p)"
proof -
  from assms obtain a d where a: "issue_date iv = Some a"
    and d: "relativedelta_add 6 a = Inr d"
    and loop: "note_loop [] iv ((face_value iv * annual_coupon_rate iv) / 2) d 0 = Inr ps"
    by (auto simp: scheduled_rows_def split: option.splits sum.splits)
  from note_loop_Inr [OF loop]
  have dates: "loop_dates d (maturity_date iv) (map init_payment_date ps)"
    and ok: "\<forall>p\<in>set ps. note_row_ok iv ((face_value iv * annual_coupon_rate iv) / 2) p"
    by simp_all
  have "semiannual_dates a (maturity_date iv) (map init_payment_date ps)"
    using dates d by (cases ps) (simp_all add: loop_dates_def)
  with a ok show ?thesis by simp
qed

lemma note_scheduled_rows_succeeds:
  assumes "investment_type iv = TREASURY_NOTE" and "issue_date iv = Some a"
    and "year a < MAXYEAR" and "year (maturity_date iv) < MAXYEAR"
  shows "\<exists>ps. scheduled_rows iv = Inr ps"
proof -
  from relativedelta_add_in_range [OF assms(3)]
  obtain d where d: "relativedelta_add 6 a = Inr d" ..
  from note_loop_succeeds [OF assms(4)]
  obtain ps where "note_loop [] iv ((face_value iv * annual_coupon_rate iv) / 2) d 0 = Inr ps"
    by blast
  with assms(1,2) d show ?thesis
    by (simp add: scheduled_rows_def)
qed

section \<open>The schedule of a treasury bill\<close>

text \<open>
  C2.  For every treasury bill, whatever the store holds, schedule generation succeeds and
  the schedule it produces is exactly one event: dated at the maturity date, of amount the
  face value, and of kind \<open>PRINCIPAL\<close>.
\<close>

theorem bill_schedule_single_principal:
  assumes "investment_type iv = TREASURY_BILL"
  shows "\<exists>p. generated_schedule db iv = Inr [p] \<and>
           payment_date p = maturity_date iv \<and>
           payment_amount p = face_value iv \<and>
           payment_type p = PRINCIPAL"
  using assms
  by (simp add: generated_schedule_def generate_payment_schedule_def events_for_def
      db_add_def new_PaymentSchedule_def Let_def filter_empty_conv insert_payment_def
      payment_amount_def face_value_def to_numeric_from_numeric)

theorem bill_schedule_single_principal_witness:
  "investment_type example_bill = TREASURY_BILL \<and>
   (\<exists>p. generated_schedule empty_store example_bill = Inr [p] \<and>
      payment_date p = Date 2024 9 1 \<and> payment_amount p = 50000 \<and>
      payment_type p = PRINCIPAL)"
proof -
  have h: "investment_type example_bill = TREASURY_BILL"
    by (simp add: example_bill_def new_Investment_def bill_request_def)
  have "maturity_date example_bill = Date 2024 9 1" and "face_value example_bill = 50000"
    by (simp_all add: example_bill_def new_Investment_def bill_request_def numeric_eval)
  with h bill_schedule_single_principal [OF h, of empty_store] show ?thesis
    by simp
qed

section \<open>The schedule of a treasury note\<close>

lemmas schedule_eval =
  schedule_view_def generated_schedule_def event_view_def events_for_def
  generate_payment_schedule_def note_loop.simps relativedelta_add_def monthrange_def
  isleap_def MAXYEAR_def date_le_def db_add_def new_PaymentSchedule_def Let_def
  new_Investment_def empty_store_def Date_def numeric_eval


text \<open>
  The note of face value 1000.01 and rate 0.0333, evaluated: the generator computes the
  coupon 16.6501665 and the final payment 1016.6601665, and the rows hold 16.65 and
  1016.66, the two decimals of the column.
\<close>

lemma odd_amount_note_schedule:
  "schedule_view empty_store odd_amount_note =
     Inr [(Date 2024 7 15, 1665 / 100, COUPON), (Date 2025 1 15, 1665 / 100, COUPON),
          (Date 2025 7 15, 1665 / 100, COUPON), (Date 2026 1 15, 101666 / 100, FINAL_PAYMENT)]"
  "face_value odd_amount_note * annual_coupon_rate odd_amount_note / 2 = 166501665 / 10000000"
  by (simp_all add: schedule_eval odd_amount_note_def odd_amount_request_def note_request_def)











section \<open>The principal event\<close>

lemma count_by_key:
  "distinct (map f xs) \<Longrightarrow>
   length (filter (\<lambda>x. f x = a) xs) = (if a \<in> f ` set xs then 1 else 0)"
proof (induction xs)
  case Nil
  show ?case by simp
next
  case (Cons x xs)
  then have IH: "length (filter (\<lambda>x. f x = a) xs) = (if a \<in> f ` set xs then 1 else 0)"
    and fresh: "f x \<notin> f ` set xs" by simp_all
  show ?case
  proof (cases "f x = a")
    case True
    with fresh have "a \<notin> f ` set xs" by simp
    with IH True show ?thesis by simp
  next
    case False
    with IH show ?thesis by auto
  qed
qed

lemma stored_note_row:
  assumes "note_row_ok iv c q"
  shows "principal_like (insert_payment k q) \<longleftrightarrow>
         payment_date (insert_payment k q) = maturity_date iv"
  using assms
  by (auto simp: note_row_ok_def principal_like_def insert_payment_def split: if_splits)

text \<open>
  The dates that the loop visits from \<open>d\<close> include the maturity date exactly when the
  cadence from \<open>d\<close> meets it.
\<close>

lemma semiannual_dates_loop_dates:
  "semiannual_dates d mat ds \<Longrightarrow> \<exists>d'. relativedelta_add 6 d = Inr d' \<and> loop_dates d' mat ds"
  by (cases ds) (auto simp: loop_dates_def split: sum.splits)

lemma loop_dates_cadence_reaches:
  "loop_dates d mat ds \<Longrightarrow> mat \<in> set ds \<longleftrightarrow> cadence_reaches d mat"
proof (induction ds arbitrary: d)
  case Nil
  then have "\<not> date_le d mat" by (simp add: loop_dates_def)
  then show ?case by (simp add: cadence_reaches.simps [of d])
next
  case (Cons x ds)
  then have x: "x = d" and le: "date_le d mat" and rest: "semiannual_dates d mat ds"
    by (simp_all add: loop_dates_def)
  from semiannual_dates_loop_dates [OF rest]
  obtain d' where d': "relativedelta_add 6 d = Inr d'" and loop: "loop_dates d' mat ds"
    by blast
  from Cons.IH [OF loop] have "mat \<in> set ds \<longleftrightarrow> cadence_reaches d' mat" .
  moreover have "cadence_reaches d mat \<longleftrightarrow> d = mat \<or> cadence_reaches d' mat"
    by (subst cadence_reaches.simps) (simp add: le d')
  ultimately show ?case using x by auto
qed

text \<open>
  The cadence seen from its start: the \<open>k\<close>-th date after \<open>d\<close>, each date six months
  after the one before it.  The cadence from \<open>d\<close> meets the maturity date exactly when
  one of these dates is the maturity date.
\<close>

lemma cadence_reaches_le: "cadence_reaches d mat \<Longrightarrow> date_le d mat"
  by (subst (asm) cadence_reaches.simps) (simp split: if_splits)

lemma cadence_reaches_iff_cadence_date:
  "cadence_reaches d mat \<longleftrightarrow> (\<exists>k. cadence_date d k = Inr mat)"
proof
  show "\<exists>k. cadence_date d k = Inr mat" if "cadence_reaches d mat"
    using that
  proof (induction d mat rule: cadence_reaches.induct)
    case (1 cur mat)
    show ?case
    proof (cases "cur = mat")
      case True
      then have "cadence_date cur 0 = Inr mat" by simp
      then show ?thesis ..
    next
      case False
      from "1.prems" have le: "date_le cur mat" by (rule cadence_reaches_le)
      from "1.prems" False le obtain nxt where nxt: "relativedelta_add 6 cur = Inr nxt"
        and rec: "cadence_reaches nxt mat"
        by (subst (asm) cadence_reaches.simps) (auto split: sum.splits)
      from "1.IH" [OF le nxt rec] obtain k where "cadence_date nxt k = Inr mat" ..
      with nxt have "cadence_date cur (Suc k) = Inr mat" by simp
      then show ?thesis ..
    qed
  qed
next
  have "cadence_date d k = Inr mat \<Longrightarrow> cadence_reaches d mat" for k
  proof (induction k arbitrary: d)
    case 0
    then show ?case
      by (subst cadence_reaches.simps) (simp add: date_le_refl)
  next
    case (Suc k)
    then obtain nxt where nxt: "relativedelta_add 6 d = Inr nxt"
      and rest: "cadence_date nxt k = Inr mat"
      by (auto split: sum.splits)
    from Suc.IH [OF rest] have rec: "cadence_reaches nxt mat" .
    from relativedelta_add_later(1) [OF nxt] cadence_reaches_le [OF rec]
    have "date_le d mat" by (rule date_le_trans)
    with nxt rec show ?case
      by (subst cadence_reaches.simps) simp
  qed
  then show "cadence_reaches d mat" if "\<exists>k. cadence_date d k = Inr mat"
    using that by blast
qed

lemma lands_on_maturity_iff:
  "lands_on_maturity iv \<longleftrightarrow>
     (\<exists>a k. issue_date iv = Some a \<and> cadence_date a (Suc k) = Inr (maturity_date iv))"
  by (auto simp: lands_on_maturity_def cadence_reaches_iff_cadence_date
      split: option.splits sum.splits)

lemma note_scheduled_rows_loop:
  assumes "investment_type iv = TREASURY_NOTE" and "scheduled_rows iv = Inr ps"
  shows "\<exists>a d. issue_date iv = Some a \<and> relativedelta_add 6 a = Inr d \<and>
               loop_dates d (maturity_date iv) (map init_payment_date ps)"
proof -
  from assms obtain a d where a: "issue_date iv = Some a"
    and d: "relativedelta_add 6 a = Inr d"
    and loop: "note_loop [] iv ((face_value iv * annual_coupon_rate iv) / 2) d 0 = Inr ps"
    by (auto simp: scheduled_rows_def split: option.splits sum.splits)
  from note_loop_Inr [OF loop] a d show ?thesis by simp
qed

lemma note_generation_succeeds:
  assumes "investment_type iv = TREASURY_NOTE" and "issue_date iv = Some a"
    and "year a < MAXYEAR" and "year (maturity_date iv) < MAXYEAR"
  shows "\<exists>db'. generate_payment_schedule db iv = Inr db'"
proof -
  from note_scheduled_rows_succeeds [OF assms]
  obtain ps where "scheduled_rows iv = Inr ps" ..
  then show ?thesis by (simp add: generate_payment_schedule_rows)
qed

lemma example_note_generation:
  "\<exists>db'. generate_payment_schedule db example_note = Inr db'"
  by (rule note_generation_succeeds [where a = "Date 2024 1 15"])
     (simp_all add: example_note_def new_Investment_def note_request_def Date_def MAXYEAR_def)

lemma off_cadence_note_generation:
  "\<exists>db'. generate_payment_schedule db off_cadence_note = Inr db'"
  by (rule note_generation_succeeds [where a = "Date 2024 1 15"])
     (simp_all add: off_cadence_note_def off_cadence_request_def new_Investment_def
        note_request_def Date_def MAXYEAR_def)

text \<open>
  The claim C3 asks for exactly one principal or final-payment event in every schedule.
  The note issued on 2024-01-15 and maturing on 2026-03-15 passes the validators of the
  creation request, and its schedule is four coupons: the dates of the cadence pass the
  maturity date without meeting it, so no event repays the principal.
\<close>

theorem off_cadence_note_has_no_principal_event:
  "InvestmentCreate_valid off_cadence_request \<and>
   schedule_view empty_store off_cadence_note =
     Inr [(Date 2024 7 15, 5000, COUPON), (Date 2025 1 15, 5000, COUPON),
          (Date 2025 7 15, 5000, COUPON), (Date 2026 1 15, 5000, COUPON)] \<and>
   map_sum id (filter principal_like) (generated_schedule empty_store off_cadence_note) =
     Inr []"
  by (simp add: schedule_eval off_cadence_note_def off_cadence_request_def note_request_def
      InvestmentCreate_valid_def principal_like_def)

text \<open>
  C3, amended.  In every schedule that generation produces there is at most one event
  whose kind is principal or final payment, and every such event is dated at the maturity
  date.  There is exactly one when the investment is a bill, or is a note whose cadence
  meets the maturity date: the dates six months after the issue date, six months after
  that, and so on, for as long as they are on or before the maturity date, include the
  maturity date.  Otherwise there is none.
\<close>

theorem principal_event_at_most_once:
  assumes "generated_schedule db iv = Inr evs"
  shows "length (filter principal_like evs) \<le> 1 \<and>
         (\<forall>p\<in>set evs. principal_like p \<longrightarrow> payment_date p = maturity_date iv) \<and>
         (length (filter principal_like evs) = 1 \<longleftrightarrow>
            investment_type iv = TREASURY_BILL \<or> lands_on_maturity iv)"
proof (cases "investment_type iv")
  case TREASURY_BILL
  with assms show ?thesis
    by (auto simp: generated_schedule_rows scheduled_rows_def rows_with_ids_def
        new_PaymentSchedule_def principal_like_def insert_payment_def)
next
  case TREASURY_NOTE
  from assms obtain ps where ps: "scheduled_rows iv = Inr ps"
    and evs: "evs = rows_with_ids ps (uuid_source db)"
    by (auto simp: generated_schedule_rows split: sum.splits)
  let ?c = "(face_value iv * annual_coupon_rate iv) / 2"
  from note_scheduled_rows [OF TREASURY_NOTE ps] obtain a
    where dates: "semiannual_dates a (maturity_date iv) (map init_payment_date ps)"
      and ok: "\<forall>p\<in>set ps. note_row_ok iv ?c p"
    by blast
  from note_scheduled_rows_loop [OF TREASURY_NOTE ps] obtain a' d
    where a': "issue_date iv = Some a'" and d: "relativedelta_add 6 a' = Inr d"
      and loop: "loop_dates d (maturity_date iv) (map init_payment_date ps)"
    by blast
  have same: "map payment_date evs = map init_payment_date ps"
    unfolding evs by (rule map_rows_with_ids) (simp add: insert_payment_def)
  have at_maturity: "principal_like p \<longleftrightarrow> payment_date p = maturity_date iv"
    if "p \<in> set evs" for p
  proof -
    from that obtain q k where "q \<in> set ps" and p: "p = insert_payment k q"
      unfolding evs by (blast dest: in_rows_with_ids)
    with ok have "note_row_ok iv ?c q" by blast
    from stored_note_row [OF this] show ?thesis unfolding p .
  qed
  then have filter_eq:
    "filter principal_like evs = filter (\<lambda>p. payment_date p = maturity_date iv) evs"
    by (intro filter_cong refl)
  have "distinct (map payment_date evs)"
    using semiannual_dates_distinct [OF dates] same by simp
  from count_by_key [OF this, of "maturity_date iv"] filter_eq
  have count: "length (filter principal_like evs) =
      (if maturity_date iv \<in> payment_date ` set evs then 1 else 0)"
    by simp
  have "maturity_date iv \<in> payment_date ` set evs \<longleftrightarrow>
        maturity_date iv \<in> set (map init_payment_date ps)"
    using same by (metis set_map)
  also have "\<dots> \<longleftrightarrow> cadence_reaches d (maturity_date iv)"
    by (rule loop_dates_cadence_reaches [OF loop])
  also have "\<dots> \<longleftrightarrow> lands_on_maturity iv"
    by (simp add: lands_on_maturity_def a' d)
  finally have "maturity_date iv \<in> payment_date ` set evs \<longleftrightarrow> lands_on_maturity iv" .
  with count at_maturity TREASURY_NOTE show ?thesis by simp
qed

theorem principal_event_at_most_once_witness:
  "(\<exists>evs. generated_schedule empty_store example_note = Inr evs \<and>
      lands_on_maturity example_note \<and>
      length (filter principal_like evs) = 1 \<and>
      (\<forall>p\<in>set evs. principal_like p \<longrightarrow> payment_date p = Date 2026 1 15)) \<and>
   (\<exists>evs. generated_schedule empty_store off_cadence_note = Inr evs \<and>
      investment_type off_cadence_note \<noteq> TREASURY_BILL \<and>
      \<not> lands_on_maturity off_cadence_note \<and>
      length (filter principal_like evs) = 0)"
proof -
  from example_note_generation [of empty_store]
  obtain evs where gen: "generated_schedule empty_store example_note = Inr evs"
    by (auto simp: generated_schedule_def)
  have lands: "lands_on_maturity example_note"
    and m: "maturity_date example_note = Date 2026 1 15"
    by (simp_all add: lands_on_maturity_def cadence_reaches.simps relativedelta_add_def
        monthrange_def isleap_def MAXYEAR_def date_le_def Let_def example_note_def
        new_Investment_def note_request_def Date_def)
  from principal_event_at_most_once [OF gen] lands
  have "length (filter principal_like evs) = 1"
    and "\<forall>p\<in>set evs. principal_like p \<longrightarrow> payment_date p = Date 2026 1 15"
    unfolding m by simp_all
  with gen lands have first:
    "\<exists>evs. generated_schedule empty_store example_note = Inr evs \<and>
      lands_on_maturity example_note \<and>
      length (filter principal_like evs) = 1 \<and>
      (\<forall>p\<in>set evs. principal_like p \<longrightarrow> payment_date p = Date 2026 1 15)"
    by blast
  from off_cadence_note_generation [of empty_store]
  obtain evs' where gen': "generated_schedule empty_store off_cadence_note = Inr evs'"
    by (auto simp: generated_schedule_def)
  have misses: "\<not> lands_on_maturity off_cadence_note"
    and is_note: "investment_type off_cadence_note \<noteq> TREASURY_BILL"
    by (simp_all add: lands_on_maturity_def cadence_reaches.simps relativedelta_add_def
        monthrange_def isleap_def MAXYEAR_def date_le_def Let_def off_cadence_note_def
        off_cadence_request_def new_Investment_def note_request_def Date_def)
  from principal_event_at_most_once [OF gen'] misses is_note
  have "length (filter principal_like evs') \<le> 1"
    and "length (filter principal_like evs') \<noteq> 1"
    by blast+
  then have "length (filter principal_like evs') = 0"
    by linarith
  with gen' misses is_note have second:
    "\<exists>evs. generated_schedule empty_store off_cadence_note = Inr evs \<and>
      investment_type off_cadence_note \<noteq> TREASURY_BILL \<and>
      \<not> lands_on_maturity off_cadence_note \<and>
      length (filter principal_like evs) = 0"
    by blast
  from first second show ?thesis ..
qed
section \<open>Regeneration\<close>

lemma events_for_delete_same:
  "events_for (db\<lparr>payment_schedules :=
                   filter (\<lambda>p. investment_id p \<noteq> iid) (payment_schedules db)\<rparr>) iid = []"
  by (simp add: events_for_def filter_empty_conv)

lemma events_for_delete_other:
  "j \<noteq> iid \<Longrightarrow>
   events_for (db\<lparr>payment_schedules :=
                   filter (\<lambda>p. investment_id p \<noteq> iid) (payment_schedules db)\<rparr>) j =
   events_for db j"
  by (auto simp: events_for_def intro: filter_cong)

lemma generate_payment_schedule_Inr:
  assumes "generate_payment_schedule db iv = Inr db'"
  shows "\<exists>ps. scheduled_rows iv = Inr ps \<and>
           events_for db' (inv_id iv) = rows_with_ids ps (uuid_source db) \<and>
           uuid_source db' = uuid_source db + length ps \<and>
           investments db' = investments db \<and>
           (\<forall>j. j \<noteq> inv_id iv \<longrightarrow> events_for db' j = events_for db j)"
proof -
  let ?db1 = "db\<lparr>payment_schedules :=
                  filter (\<lambda>p. investment_id p \<noteq> inv_id iv) (payment_schedules db)\<rparr>"
  from assms obtain ps where ps: "scheduled_rows iv = Inr ps"
    and db': "db' = insert_rows ?db1 ps"
    by (auto simp: generate_payment_schedule_rows split: sum.splits)
  note ids = scheduled_rows_investment_id [OF ps]
  have "events_for db' (inv_id iv) = rows_with_ids ps (uuid_source db)"
    unfolding db' using events_for_insert_rows [OF ids, of ?db1]
    by (simp add: events_for_delete_same)
  moreover have "uuid_source db' = uuid_source db + length ps"
    unfolding db' by (simp add: insert_rows_uuid_source)
  moreover have "investments db' = investments db"
    unfolding db' by (simp add: insert_rows_investments)
  moreover have "events_for db' j = events_for db j" if "j \<noteq> inv_id iv" for j
  proof -
    from ids that have "\<forall>p\<in>set ps. init_investment_id p \<noteq> j" by auto
    from events_for_insert_rows_other [OF this, of ?db1] that
    show ?thesis unfolding db' by (simp add: events_for_delete_other)
  qed
  ultimately show ?thesis using ps by blast
qed

text \<open>
  Whether generation fails depends on the investment alone: a run that raised raises
  again on any store, and commits nothing.
\<close>

lemma generation_failure_repeats:
  assumes "generate_payment_schedule db iv = Inl e"
  shows "generate_payment_schedule db' iv = Inl e"
  using assms by (simp add: generate_payment_schedule_rows split: sum.splits)

lemma map_row_content_rows_with_ids:
  "map row_content (rows_with_ids ps n) = map (insert_payment 0) ps"
  by (rule map_rows_with_ids) (simp add: row_content_def insert_payment_def)

text \<open>
  C5.  Schedule generation run twice in succession: when the first run succeeds, so does
  the second, and the events then persisted for the investment are exactly the rows that
  the second run registered, under the identifiers that its commit gave them.  They are
  the same schedule as after the first run, once and not twice; none of them carries the
  identifier of a row of the first run, so no row of the first run is left; the events of
  every other investment and the investments themselves are as they were.
\<close>

theorem regeneration_replaces_schedule:
  assumes "generate_payment_schedule db iv = Inr db1"
  shows "\<exists>db2 ps. generate_payment_schedule db1 iv = Inr db2 \<and>
           scheduled_rows iv = Inr ps \<and>
           events_for db2 (inv_id iv) = rows_with_ids ps (uuid_source db1) \<and>
           map row_content (events_for db2 (inv_id iv)) =
             map row_content (events_for db1 (inv_id iv)) \<and>
           set (map pay_id (events_for db2 (inv_id iv))) \<inter>
             set (map pay_id (events_for db1 (inv_id iv))) = {} \<and>
           distinct (map pay_id (events_for db2 (inv_id iv))) \<and>
           (\<forall>j. j \<noteq> inv_id iv \<longrightarrow> events_for db2 j = events_for db1 j) \<and>
           investments db2 = investments db1"
proof -
  from generate_payment_schedule_Inr [OF assms] obtain ps
    where ps: "scheduled_rows iv = Inr ps"
      and e1: "events_for db1 (inv_id iv) = rows_with_ids ps (uuid_source db)"
      and u1: "uuid_source db1 = uuid_source db + length ps"
    by blast
  define db2 where "db2 = insert_rows
      (db1\<lparr>payment_schedules :=
             filter (\<lambda>p. investment_id p \<noteq> inv_id iv) (payment_schedules db1)\<rparr>) ps"
  have g2: "generate_payment_schedule db1 iv = Inr db2"
    by (simp add: generate_payment_schedule_rows ps db2_def)
  from generate_payment_schedule_Inr [OF g2] ps
  have e2: "events_for db2 (inv_id iv) = rows_with_ids ps (uuid_source db1)"
    and inv2: "investments db2 = investments db1"
    and other: "\<forall>j. j \<noteq> inv_id iv \<longrightarrow> events_for db2 j = events_for db1 j"
    by auto
  have same: "map row_content (events_for db2 (inv_id iv)) =
      map row_content (events_for db1 (inv_id iv))"
    by (simp add: e1 e2 map_row_content_rows_with_ids)
  have fresh: "set (map pay_id (events_for db2 (inv_id iv))) \<inter>
      set (map pay_id (events_for db1 (inv_id iv))) = {}"
    by (auto simp: e1 e2 u1 map_pay_id_rows_with_ids)
  have dist: "distinct (map pay_id (events_for db2 (inv_id iv)))"
    by (simp add: e2 map_pay_id_rows_with_ids)
  from g2 ps e2 same fresh dist other inv2 show ?thesis by blast
qed


theorem regeneration_replaces_schedule_witness:
  "\<exists>db1. generate_payment_schedule stale_store example_note = Inr db1 \<and>
     (\<exists>db2 ps. generate_payment_schedule db1 example_note = Inr db2 \<and>
        scheduled_rows example_note = Inr ps \<and>
        events_for db2 (inv_id example_note) = rows_with_ids ps (uuid_source db1) \<and>
        map row_content (events_for db2 (inv_id example_note)) =
          map row_content (events_for db1 (inv_id example_note)) \<and>
        set (map pay_id (events_for db2 (inv_id example_note))) \<inter>
          set (map pay_id (events_for db1 (inv_id example_note))) = {} \<and>
        distinct (map pay_id (events_for db2 (inv_id example_note))) \<and>
        (\<forall>j. j \<noteq> inv_id example_note \<longrightarrow> events_for db2 j = events_for db1 j) \<and>
        investments db2 = investments db1)"
proof -
  from example_note_generation [of stale_store]
  obtain db1 where gen: "generate_payment_schedule stale_store example_note = Inr db1" ..
  from regeneration_replaces_schedule [OF gen] gen show ?thesis by blast
qed

text \<open>
  The same on the store that holds stale events of the investment, evaluated: after two
  runs the investment has the four events of its schedule, under the identifiers 27 to
  30 of the second commit, and the event of the other investment is untouched.
\<close>

lemma regeneration_example:
  "map_sum id (\<lambda>db1. map_sum id
       (\<lambda>db2. map (\<lambda>p. (pay_id p, investment_id p, payment_date p, payment_amount p))
                 (payment_schedules db2))
       (generate_payment_schedule db1 example_note))
     (generate_payment_schedule stale_store example_note) =
   Inr (Inr [(21, 8, Date 2024 5 1, 222),
             (27, 7, Date 2024 7 15, 5000), (28, 7, Date 2025 1 15, 5000),
             (29, 7, Date 2025 7 15, 5000), (30, 7, Date 2026 1 15, 105000)])"
  by (simp add: schedule_eval stale_store_def example_note_def note_request_def)

section \<open>A note without an issue date\<close>

text \<open>
  C4.  The claim is that a note whose issue date is absent gets the schedule of the same
  note issued on its purchase date.  The request without issue date passes the
  validators; generation for the stored row raises \<open>TypeError\<close>, while the row with the
  purchase date as issue date gets the four events of the example.
\<close>

theorem no_issue_date_generation_raises:
  "InvestmentCreate_valid no_issue_date_request \<and>
   issue_date no_issue_date_note = None \<and>
   generated_schedule empty_store no_issue_date_note = Inl TypeError \<and>
   schedule_view empty_store
     (no_issue_date_note\<lparr>issue_date := Some (purchase_date no_issue_date_note)\<rparr>) =
     Inr [(Date 2024 7 15, 5000, COUPON), (Date 2025 1 15, 5000, COUPON),
          (Date 2025 7 15, 5000, COUPON), (Date 2026 1 15, 105000, FINAL_PAYMENT)]"
  by (simp add: schedule_eval no_issue_date_note_def no_issue_date_request_def
      note_request_def InvestmentCreate_valid_def)

text \<open>
  C6.  The claim is that a creation request whose schedule generation fails leaves no
  trace in the store.  For the request without issue date the generator raises, and the
  committed store holds the new investment and no payment event for it.
\<close>

theorem failed_creation_keeps_investment:
  "InvestmentCreate_valid no_issue_date_request \<and>
   create_investment empty_store 1 no_issue_date_request =
     (\<lparr>investments = [new_Investment 1 0 no_issue_date_request],
       payment_schedules = [], uuid_source = 1\<rparr>,
      Inl TypeError)"
  by (simp add: create_investment_def generate_payment_schedule_def Let_def
      new_Investment_def empty_store_def no_issue_date_request_def note_request_def
      InvestmentCreate_valid_def Date_def date_le_def)

section \<open>Uniqueness of investment identifiers\<close>

text \<open>
  The empty store has unique investment identifiers, and creation, schedule generation and
  update keep them unique, whether they succeed or fail.
\<close>

lemma store_ids_ok_empty: "store_ids_ok empty_store"
  by (simp add: store_ids_ok_def empty_store_def)

lemma store_ids_ok_generate:
  assumes "store_ids_ok db" and "generate_payment_schedule db iv = Inr db'"
  shows "store_ids_ok db'"
proof -
  from assms(2) obtain ps where "db' = insert_rows
      (db\<lparr>payment_schedules :=
            filter (\<lambda>p. investment_id p \<noteq> inv_id iv) (payment_schedules db)\<rparr>) ps"
    by (auto simp: generate_payment_schedule_rows split: sum.splits)
  then have "investments db' = investments db" "uuid_source db \<le> uuid_source db'"
    by (simp_all add: insert_rows_investments insert_rows_uuid_source)
  with assms(1) show ?thesis
    by (auto simp: store_ids_ok_def)
qed

lemma store_ids_ok_create:
  assumes "store_ids_ok db" and "create_investment db uid d = (db', r)"
  shows "store_ids_ok db'"
proof -
  let ?iv = "new_Investment uid (uuid_source db) d"
  let ?db1 = "db\<lparr>investments := investments db @ [?iv], uuid_source := uuid_source db + 1\<rparr>"
  have ok1: "store_ids_ok ?db1"
    using assms(1) by (auto simp: store_ids_ok_def new_Investment_def)
  show ?thesis
  proof (cases "generate_payment_schedule ?db1 ?iv")
    case (Inl e)
    with assms(2) have "db' = ?db1" by (simp add: create_investment_def Let_def)
    with ok1 show ?thesis by simp
  next
    case (Inr db2)
    with assms(2) have "db' = db2" by (simp add: create_investment_def Let_def)
    with store_ids_ok_generate [OF ok1 Inr] show ?thesis by simp
  qed
qed

lemma map_inv_id_replace_first:
  "find P xs = Some x \<Longrightarrow> inv_id y = inv_id x \<Longrightarrow>
   map inv_id (replace_first P y xs) = map inv_id xs"
  by (induction xs) (auto split: if_splits)

lemma find_Some_P: "find P xs = Some x \<Longrightarrow> P x"
  by (induction xs) (auto split: if_splits)

lemma inv_id_apply_update: "inv_id (apply_update iv upd) = inv_id iv"
  by (simp add: apply_update_def split: option.splits)

lemma store_ids_ok_update_first:
  assumes "store_ids_ok db" and "update_first P db upd = (db', r)"
  shows "store_ids_ok db'"
proof (cases "find P (investments db)")
  case None
  with assms(2) have "db' = db" by (simp add: update_first_def)
  with assms(1) show ?thesis by simp
next
  case (Some iv)
  with assms(2) have db': "db' = db\<lparr>investments :=
      replace_first P (apply_update iv upd) (investments db)\<rparr>"
    by (simp add: update_first_def Let_def)
  from map_inv_id_replace_first [OF Some inv_id_apply_update]
  have ids: "map inv_id (investments db') = map inv_id (investments db)"
    by (simp add: db')
  have "uuid_source db' = uuid_source db" by (simp add: db')
  with assms(1) ids show ?thesis
    unfolding store_ids_ok_def by simp
qed

lemma store_ids_ok_update:
  assumes "store_ids_ok db" and "update_investment db uid iid upd = (db', r)"
  shows "store_ids_ok db'"
  using assms unfolding update_investment_def by (rule store_ids_ok_update_first)

section \<open>Expected returns\<close>

lemma foldl_add_sum_list:
  "foldl (\<lambda>acc x. acc + g x) a xs = a + sum_list (map g xs)" for a :: rat
  by (induction xs arbitrary: a) (simp_all add: add.assoc)

lemma sum_list_filter_disjoint:
  fixes f :: "'a \<Rightarrow> rat"
  assumes "\<forall>x\<in>set xs. \<not> (A x \<and> B x)"
  shows "sum_list (map f (filter (\<lambda>x. A x \<or> B x) xs)) =
         sum_list (map f (filter A xs)) + sum_list (map f (filter B xs))"
  using assms by (induction xs) auto

lemma sum_per_investment:
  assumes "distinct (map inv_id invs)"
  shows "sum_list (map (\<lambda>i. sum_list (map payment_amount
                      (filter (\<lambda>p. investment_id p = inv_id i \<and> pending_or_due p) ps))) invs) =
         sum_list (map payment_amount
           (filter (\<lambda>p. pending_or_due p \<and> investment_id p \<in> inv_id ` set invs) ps))"
  using assms
proof (induction invs)
  case Nil
  show ?case by simp
next
  case (Cons i invs)
  let ?A = "\<lambda>p. investment_id p = inv_id i \<and> pending_or_due p"
  let ?B = "\<lambda>p. pending_or_due p \<and> investment_id p \<in> inv_id ` set invs"
  from Cons.prems have fresh: "inv_id i \<notin> inv_id ` set invs" and d: "distinct (map inv_id invs)"
    by simp_all
  have "\<forall>p\<in>set ps. \<not> (?A p \<and> ?B p)"
    using fresh by auto
  from sum_list_filter_disjoint [OF this, of payment_amount]
  have "sum_list (map payment_amount (filter (\<lambda>p. ?A p \<or> ?B p) ps)) =
        sum_list (map payment_amount (filter ?A ps)) +
        sum_list (map payment_amount (filter ?B ps))" .
  moreover have "filter (\<lambda>p. pending_or_due p \<and> investment_id p \<in> inv_id ` set (i # invs)) ps =
                 filter (\<lambda>p. ?A p \<or> ?B p) ps"
    by (rule filter_cong) auto
  ultimately show ?case using Cons.IH [OF d] by simp
qed

lemma get_portfolio_summary_returns:
  "\<exists>s. get_portfolio_summary db uid = Inr s"
  by (simp add: get_portfolio_summary_def decimal_div_def Let_def)

lemma expected_returns_sum:
  assumes "get_portfolio_summary db uid = Inr s"
  shows "expected_returns s =
     sum_list (map (\<lambda>i. sum_list (map payment_amount
                      (filter (\<lambda>p. investment_id p = inv_id i \<and> pending_or_due p)
                         (payment_schedules db))))
        (filter (\<lambda>i. user_id i = uid \<and> status i = Some ACTIVE) (investments db)))"
  using assms
  by (auto simp: get_portfolio_summary_def decimal_div_def Let_def foldl_add_sum_list
      split: if_splits)

lemma expected_returns_example:
  "sum_list (map payment_amount (expected_events summary_store 1)) = 2000"
  by (simp add: expected_events_def summary_store_def new_Investment_def note_request_def
      new_PaymentSchedule_def pending_or_due_def numeric_eval)

text \<open>
  C7.  Investment identifiers being unique (the primary key), the summary is computed and
  its expected returns are the sum of the amounts of exactly the payment events that are
  pending or due and belong to an active investment of the user; paid and overdue events
  add nothing.  The active investment with a paid event of 1000 and a pending event of
  2000 has expected returns 2000.
\<close>

theorem expected_returns_pending_or_due:
  assumes "distinct (map inv_id (investments db))"
  shows "\<exists>s. get_portfolio_summary db uid = Inr s \<and>
           expected_returns s = sum_list (map payment_amount (expected_events db uid))"
proof -
  from get_portfolio_summary_returns obtain s
    where s: "get_portfolio_summary db uid = Inr s" ..
  let ?invs = "filter (\<lambda>i. user_id i = uid \<and> status i = Some ACTIVE) (investments db)"
  have "distinct (map inv_id ?invs)"
    using assms by (rule distinct_map_filter)
  from sum_per_investment [OF this, of "payment_schedules db"] expected_returns_sum [OF s]
  have "expected_returns s = sum_list (map payment_amount
      (filter (\<lambda>p. pending_or_due p \<and> investment_id p \<in> inv_id ` set ?invs)
         (payment_schedules db)))"
    by simp
  also have "filter (\<lambda>p. pending_or_due p \<and> investment_id p \<in> inv_id ` set ?invs)
               (payment_schedules db) = expected_events db uid"
    unfolding expected_events_def by (rule filter_cong) force+
  finally show ?thesis using s by blast
qed

theorem expected_returns_pending_or_due_witness:
  "distinct (map inv_id (investments summary_store)) \<and>
   (\<exists>s. get_portfolio_summary summary_store 1 = Inr s \<and>
      expected_returns s = sum_list (map payment_amount (expected_events summary_store 1)) \<and>
      expected_returns s = 2000)"
proof -
  have h: "distinct (map inv_id (investments summary_store))"
    by (simp add: summary_store_def)
  from expected_returns_pending_or_due [OF h, of 1] expected_returns_example h
  show ?thesis by auto
qed

section \<open>Rounding to 28 significant digits\<close>

lemma pow10_powi: "pow10 k = 10 powi k"
  by (simp add: pow10_def power_int_def inverse_eq_divide power_one_over)

lemma pow10_pos: "0 < pow10 k"
  by (simp add: pow10_powi)

lemma pow10_add: "pow10 (i + j) = pow10 i * pow10 j"
  by (simp add: pow10_powi power_int_add)

lemma pow10_diff: "pow10 (i - j) = pow10 i / pow10 j"
  by (simp add: pow10_powi power_int_diff)

lemma pow10_nat: "pow10 (int n) = 10 ^ n"
  by (simp add: pow10_powi)

lemma num_digits_pos: "0 < num_digits n"
  by (subst num_digits.simps) simp

lemma num_digits_bounds:
  "0 < n \<Longrightarrow> 10 ^ (num_digits n - 1) \<le> n \<and> n < 10 ^ num_digits n"
proof (induction n rule: num_digits.induct)
  case (1 n)
  show ?case
  proof (cases "n < 10")
    case True
    with "1.prems" show ?thesis
      by (subst (1 2) num_digits.simps) simp
  next
    case False
    then have pos: "0 < n div 10" by simp
    from "1.IH" [OF False pos]
    have lo: "10 ^ (num_digits (n div 10) - 1) \<le> n div 10"
      and hi: "n div 10 < 10 ^ num_digits (n div 10)" by simp_all
    have nd: "num_digits n = Suc (num_digits (n div 10))"
      using False by (subst num_digits.simps) simp
    have "10 ^ (num_digits n - 1) = 10 * 10 ^ (num_digits (n div 10) - 1)"
      using num_digits_pos [of "n div 10"] unfolding nd
      by (cases "num_digits (n div 10)") simp_all
    also have "\<dots> \<le> 10 * (n div 10)" using lo by simp
    also have "\<dots> \<le> n" by simp
    finally have 1: "10 ^ (num_digits n - 1) \<le> n" .
    have "n < 10 * (n div 10) + 10" by presburger
    also have "\<dots> \<le> 10 * 10 ^ num_digits (n div 10)" using hi by simp
    finally have 2: "n < 10 ^ num_digits n" unfolding nd by simp
    from 1 2 show ?thesis ..
  qed
qed

lemma num_digits_bounds_rat:
  assumes "0 < n"
  shows "(10::rat) ^ (num_digits n - 1) \<le> of_nat n" and "of_nat n < (10::rat) ^ num_digits n"
proof -
  from num_digits_bounds [OF assms]
  have "10 ^ (num_digits n - 1) \<le> n" and "n < 10 ^ num_digits n" by simp_all
  then have "(of_nat (10 ^ (num_digits n - 1)) :: rat) \<le> of_nat n"
    and "(of_nat n :: rat) < of_nat (10 ^ num_digits n)"
    by (simp_all only: of_nat_le_iff of_nat_less_iff)
  then show "(10::rat) ^ (num_digits n - 1) \<le> of_nat n"
    and "of_nat n < (10::rat) ^ num_digits n"
    by simp_all
qed

lemma adjusted_bounds:
  assumes "0 < q"
  shows "pow10 (adjusted q) \<le> q" and "q < pow10 (adjusted q + 1)"
proof -
  obtain a b where ab: "quotient_of q = (a, b)" by force
  have b: "0 < b" using quotient_of_denom_pos [OF ab] .
  have q: "q = of_int a / of_int b" using quotient_of_div [OF ab] .
  have a: "0 < a"
    using assms b unfolding q by (simp add: zero_less_divide_iff)
  define m where "m = nat a"
  define n where "n = nat b"
  have m: "0 < m" and n: "0 < n" using a b by (simp_all add: m_def n_def)
  have qmn: "q = of_nat m / of_nat n"
    unfolding q m_def n_def using a b by simp
  define d where "d = int (num_digits m) - int (num_digits n)"
  note mb = num_digits_bounds_rat [OF m]
  note nb = num_digits_bounds_rat [OF n]
  have npos: "(0::rat) < of_nat n" and mpos: "(0::rat) < of_nat m" using m n by simp_all
  have p10: "(0::rat) < 10 ^ k" for k by simp
  have upper: "q < pow10 (d + 1)"
  proof -
    have "q < 10 ^ num_digits m / of_nat n"
      unfolding qmn using mb(2) npos by (rule divide_strict_right_mono)
    also have "\<dots> \<le> 10 ^ num_digits m / 10 ^ (num_digits n - 1)"
      using nb(1) by (intro divide_left_mono mult_pos_pos npos p10) simp_all
    also have "\<dots> = pow10 (int (num_digits m) - int (num_digits n - 1))"
      by (simp only: pow10_diff pow10_nat)
    also have "int (num_digits m) - int (num_digits n - 1) = d + 1"
      using num_digits_pos [of n] by (simp add: d_def)
    finally show ?thesis .
  qed
  have lower: "pow10 (d - 1) < q"
  proof -
    have "d - 1 = int (num_digits m - 1) - int (num_digits n)"
      using num_digits_pos [of m] by (simp add: d_def)
    then have "pow10 (d - 1) = pow10 (int (num_digits m - 1) - int (num_digits n))"
      by simp
    also have "\<dots> = 10 ^ (num_digits m - 1) / 10 ^ num_digits n"
      by (simp only: pow10_diff pow10_nat)
    also have "\<dots> < 10 ^ (num_digits m - 1) / of_nat n"
      using nb(2) by (intro divide_strict_left_mono mult_pos_pos npos p10)
    also have "\<dots> \<le> q"
      unfolding qmn using mb(1) npos by (intro divide_right_mono) simp_all
    finally show ?thesis .
  qed
  have adj: "adjusted q = (if pow10 d \<le> q then d else d - 1)"
    unfolding adjusted_def ab d_def m_def n_def by (simp add: Let_def)
  show "pow10 (adjusted q) \<le> q"
    unfolding adj using lower by (simp add: less_imp_le)
  show "q < pow10 (adjusted q + 1)"
    unfolding adj using upper by (simp add: not_le)
qed

lemma round_half_even_near: "\<bar>of_int (round_half_even x) - x\<bar> \<le> 1 / 2"
proof -
  have "of_int \<lfloor>x\<rfloor> \<le> x" and "x < of_int \<lfloor>x\<rfloor> + 1"
    by linarith+
  then show ?thesis
    unfolding round_half_even_def Let_def by (auto simp: abs_le_iff)
qed

lemma round_half_even_of_int: "round_half_even (of_int k) = k"
  by (simp add: round_half_even_def Let_def)

lemma round_half_even_mono_bounds:
  assumes "of_int lo \<le> x" and "x \<le> of_int hi"
  shows "lo \<le> round_half_even x" and "round_half_even x \<le> hi"
proof -
  have f: "lo \<le> \<lfloor>x\<rfloor>" using assms(1) by (simp add: le_floor_iff)
  have c: "\<lfloor>x\<rfloor> \<le> hi" using assms(2) by (simp add: floor_le_iff)
  show "lo \<le> round_half_even x"
    using f unfolding round_half_even_def Let_def by auto
  show "round_half_even x \<le> hi"
  proof (cases "x = of_int hi")
    case True
    then show ?thesis by (simp add: round_half_even_of_int)
  next
    case False
    with assms(2) have "x < of_int hi" by simp
    then have "\<lfloor>x\<rfloor> < hi" by (simp add: floor_less_iff)
    then show ?thesis unfolding round_half_even_def Let_def by auto
  qed
qed

text \<open>
  The rounded value has a coefficient \<open>c\<close> of 28 digits (or is the next power of ten),
  lies within half a unit of the last digit of the exact value, and is the exact value
  when that has no more than 28 significant digits.
\<close>

lemma decimal_round_coefficient:
  assumes "q \<noteq> 0"
  shows "\<exists>c e. decimal_round q = sgn q * of_int c * pow10 e \<and>
               10 ^ 27 \<le> c \<and> c \<le> 10 ^ 28 \<and>
               \<bar>decimal_round q - q\<bar> \<le> pow10 e / 2 \<and>
               pow10 e * 10 ^ 27 \<le> \<bar>q\<bar>"
proof -
  define e where "e = adjusted \<bar>q\<bar> - 27"
  define x where "x = \<bar>q\<bar> / pow10 e"
  define c where "c = round_half_even x"
  have pos: "0 < \<bar>q\<bar>" using assms by simp
  note ab = adjusted_bounds [OF pos]
  have dr: "decimal_round q = sgn q * of_int c * pow10 e"
    using assms by (simp add: decimal_round_def Let_def c_def x_def e_def)
  have p27: "pow10 27 = 10 ^ 27" and p28: "pow10 28 = 10 ^ 28"
    by (simp_all add: pow10_def)
  have "adjusted \<bar>q\<bar> = e + 27" and "adjusted \<bar>q\<bar> + 1 = e + 28"
    by (simp_all add: e_def)
  then have pe: "pow10 (adjusted \<bar>q\<bar>) = pow10 e * 10 ^ 27"
    and pe1: "pow10 (adjusted \<bar>q\<bar> + 1) = pow10 e * 10 ^ 28"
    by (simp_all only: pow10_add p27 p28)
  have lo: "10 ^ 27 \<le> x"
    unfolding x_def using ab(1) pow10_pos [of e]
    by (simp add: pe pos_le_divide_eq mult.commute)
  have hi: "x \<le> 10 ^ 28"
    unfolding x_def using ab(2) pow10_pos [of e]
    by (simp add: pe1 pos_divide_le_eq mult.commute less_imp_le)
  have "of_int (10 ^ 27) \<le> x" and "x \<le> of_int (10 ^ 28)"
    using lo hi by simp_all
  from round_half_even_mono_bounds [OF this]
  have cb: "10 ^ 27 \<le> c" "c \<le> 10 ^ 28" by (simp_all add: c_def)
  have "x * pow10 e = \<bar>q\<bar>"
    unfolding x_def using pow10_pos [of e] by simp
  then have "sgn q * x * pow10 e = sgn q * \<bar>q\<bar>"
    by (simp add: mult.assoc)
  then have qx: "q = sgn q * x * pow10 e"
    by (simp add: sgn_mult_abs)
  have "decimal_round q - q = sgn q * (of_int c - x) * pow10 e"
    by (subst (2) qx) (simp add: dr algebra_simps)
  then have "\<bar>decimal_round q - q\<bar> = \<bar>of_int c - x\<bar> * pow10 e"
    using assms pow10_pos [of e] by (simp add: abs_mult abs_sgn_eq)
  also have "\<dots> \<le> 1 / 2 * pow10 e"
    using round_half_even_near [of x] pow10_pos [of e]
    by (intro mult_right_mono) (simp_all add: c_def)
  finally have near: "\<bar>decimal_round q - q\<bar> \<le> pow10 e / 2" by simp
  have "pow10 e * 10 ^ 27 \<le> \<bar>q\<bar>" using ab(1) by (simp add: pe)
  with dr cb near show ?thesis by blast
qed


lemma pow10_less_imp_less:
  assumes "pow10 i < pow10 j"
  shows "i < j"
proof (rule ccontr)
  assume "\<not> i < j"
  then have "j \<le> i" by simp
  then have "(10::rat) powi j \<le> 10 powi i"
    by (rule power_int_increasing) simp
  with assms show False by (simp add: pow10_powi)
qed

lemma decimal_round_exact:
  assumes q: "q = of_int m * pow10 j" and m: "\<bar>m\<bar> < 10 ^ 28"
  shows "decimal_round q = q"
proof (cases "q = 0")
  case True
  then show ?thesis by (simp add: decimal_round_def)
next
  case False
  define e where "e = adjusted \<bar>q\<bar> - 27"
  have pos: "0 < \<bar>q\<bar>" using False by simp
  have p27: "pow10 27 = 10 ^ 27" and p1: "pow10 1 = 10"
    by (simp_all add: pow10_def)
  have "adjusted \<bar>q\<bar> = e + 27" by (simp add: e_def)
  then have "pow10 e * 10 ^ 27 \<le> \<bar>q\<bar>"
    using adjusted_bounds(1) [OF pos] by (simp only: pow10_add p27)
  also have "\<bar>q\<bar> = of_int \<bar>m\<bar> * pow10 j"
    unfolding q using pow10_pos [of j] by (simp add: abs_mult)
  also have "\<dots> < 10 ^ 28 * pow10 j"
  proof -
    have "(of_int \<bar>m\<bar> :: rat) < of_int (10 ^ 28)" using m by (simp only: of_int_less_iff)
    then have "(of_int \<bar>m\<bar> :: rat) < 10 ^ 28" by simp
    then show ?thesis using pow10_pos [of j] by (rule mult_strict_right_mono)
  qed
  finally have "pow10 e < 10 * pow10 j" by simp
  then have "pow10 e < pow10 (j + 1)" by (simp add: pow10_add p1)
  then have ej: "e \<le> j" using pow10_less_imp_less [of e "j + 1"] by simp
  define k where "k = nat (j - e)"
  have "pow10 j = pow10 (int k) * pow10 e"
    using ej pow10_add [of "int k" e] by (simp add: k_def)
  then have pj: "pow10 j = 10 ^ k * pow10 e" by (simp add: pow10_nat)
  have "\<bar>q\<bar> / pow10 e = of_int \<bar>m\<bar> * 10 ^ k"
    unfolding \<open>\<bar>q\<bar> = of_int \<bar>m\<bar> * pow10 j\<close> pj using pow10_pos [of e] by simp
  also have "\<dots> = of_int (\<bar>m\<bar> * 10 ^ k)" by simp
  finally have x: "\<bar>q\<bar> / pow10 e = of_int (\<bar>m\<bar> * 10 ^ k)" .
  have "decimal_round q = sgn q * of_int (round_half_even (\<bar>q\<bar> / pow10 e)) * pow10 e"
    using False by (simp add: decimal_round_def Let_def e_def)
  also have "\<dots> = sgn q * (\<bar>q\<bar> / pow10 e) * pow10 e"
    unfolding x round_half_even_of_int ..
  also have "\<dots> = sgn q * \<bar>q\<bar>"
    using pow10_pos [of e] by simp
  also have "\<dots> = q" by (simp add: sgn_mult_abs)
  finally show ?thesis .
qed


section \<open>The summary on degenerate input\<close>

lemma num_digits_small: "n < 10 \<Longrightarrow> num_digits n = 1"
  by (simp add: num_digits.simps)

lemma quotient_of_third: "quotient_of (1 / 3) = (1, 3)"
proof -
  have eq: "(1 / 3 :: rat) = Fract 1 3"
    by (simp add: Fract_of_int_quotient)
  show ?thesis
    unfolding eq by (simp add: quotient_of_Fract Rat.normalize_def)
qed

lemma quotient_of_half: "quotient_of (1 / 2) = (1, 2)"
proof -
  have eq: "(1 / 2 :: rat) = Fract 1 2"
    by (simp add: Fract_of_int_quotient)
  show ?thesis
    unfolding eq by (simp add: quotient_of_Fract Rat.normalize_def)
qed

lemma adjusted_third: "adjusted (1 / 3) = - 1"
  by (simp add: adjusted_def quotient_of_third num_digits_small pow10_def)

lemma adjusted_half: "adjusted (1 / 2) = - 1"
  by (simp add: adjusted_def quotient_of_half num_digits_small pow10_def)

lemma floor_third:
  "\<lfloor>10000000000000000000000000000 / (3::rat)\<rfloor> = 3333333333333333333333333333"
  using floor_divide_of_int_eq [of 10000000000000000000000000000 3, where ?'a = rat]
  by simp

lemma decimal_round_third:
  "decimal_round (1 / 3) = 3333333333333333333333333333 / 10000000000000000000000000000"
  by (simp add: decimal_round_def adjusted_third pow10_def round_half_even_def Let_def
      floor_third)

lemma decimal_round_half: "decimal_round (1 / 2) = 1 / 2"
  by (simp add: decimal_round_def adjusted_half pow10_def round_half_even_def Let_def)

lemma sum_list_nonneg_rat:
  fixes f :: "'a \<Rightarrow> rat"
  shows "\<forall>x\<in>set xs. 0 \<le> f x \<Longrightarrow> 0 \<le> sum_list (map f xs)"
  by (induction xs) simp_all

lemma half_store_summary:
  "get_portfolio_summary half_store 1 =
     Inr \<lparr>total_investments = 1, active_investments = 1, total_face_value = 3,
          total_purchase_price = 2, expected_returns = 3, expected_profit = 1,
          portfolio_yield = 50\<rparr>"
  by (simp add: get_portfolio_summary_def half_store_def create_investment_def
      generate_payment_schedule_def db_add_def new_Investment_def bill_request_def
      new_PaymentSchedule_def pending_or_due_def Let_def decimal_div_def decimal_round_half
      empty_store_def numeric_eval)

text \<open>
  The claim C9 gives the yield as expected profit over total purchase price times 100.
  After the creation of a bill of face value 4 bought at 3 the expected profit is 1 and
  the total purchase price 3; the quotient of the two \<^verbatim>\<open>Decimal\<close> values is
  0.3333333333333333333333333333, with 28 digits, and the yield is that times 100, which
  is not a third of 100.
\<close>

theorem third_store_yield_rounded:
  "get_portfolio_summary third_store 1 =
     Inr \<lparr>total_investments = 1, active_investments = 1, total_face_value = 4,
          total_purchase_price = 3, expected_returns = 4, expected_profit = 1,
          portfolio_yield = 3333333333333333333333333333 / 100000000000000000000000000\<rparr> \<and>
   (3333333333333333333333333333 / 100000000000000000000000000 :: rat) \<noteq> 1 / 3 * 100"
  by (simp add: get_portfolio_summary_def third_store_def create_investment_def
      generate_payment_schedule_def db_add_def new_Investment_def bill_request_def
      new_PaymentSchedule_def pending_or_due_def Let_def decimal_div_def decimal_round_third
      empty_store_def numeric_eval)

text \<open>
  C9, amended.  The summary never raises.  For a user without active investments it is
  the summary of zeros.  When the total purchase price is zero (or less) the yield is 0
  and nothing is divided; when it is positive the yield is the quotient of expected
  profit and total purchase price, rounded to 28 significant digits with ties to even as
  \<^verbatim>\<open>Decimal\<close> division rounds it, times 100.  The total is not negative when no
  purchase price is.
\<close>

theorem portfolio_summary_total:
  "\<exists>s. get_portfolio_summary db uid = Inr s \<and>
     (filter (\<lambda>i. user_id i = uid \<and> status i = Some ACTIVE) (investments db) = [] \<longrightarrow>
        s = zero_summary) \<and>
     (total_purchase_price s \<le> 0 \<longrightarrow> portfolio_yield s = 0) \<and>
     (0 < total_purchase_price s \<longrightarrow>
        portfolio_yield s =
          decimal_round (expected_profit s / total_purchase_price s) * 100) \<and>
     ((\<forall>i\<in>set (investments db). 0 \<le> purchase_price i) \<longrightarrow> 0 \<le> total_purchase_price s)"
proof -
  let ?invs = "filter (\<lambda>i. user_id i = uid \<and> status i = Some ACTIVE) (investments db)"
  from get_portfolio_summary_returns obtain s
    where s: "get_portfolio_summary db uid = Inr s" ..
  have tpp: "total_purchase_price s = sum_list (map purchase_price ?invs)"
    using s by (auto simp: get_portfolio_summary_def decimal_div_def Let_def split: if_splits)
  have zero: "s = zero_summary" if "?invs = []"
    using s that by (simp add: get_portfolio_summary_def Let_def zero_summary_def)
  have le: "portfolio_yield s = 0" if "total_purchase_price s \<le> 0"
    using s that unfolding tpp
    by (auto simp: get_portfolio_summary_def decimal_div_def Let_def split: if_splits)
  have gt: "portfolio_yield s =
      decimal_round (expected_profit s / total_purchase_price s) * 100"
    if "0 < total_purchase_price s"
    using s that unfolding tpp
    by (auto simp: get_portfolio_summary_def decimal_div_def Let_def split: if_splits)
  have nonneg: "0 \<le> total_purchase_price s"
    if "\<forall>i\<in>set (investments db). 0 \<le> purchase_price i"
    unfolding tpp using that by (intro sum_list_nonneg_rat) simp
  from s zero le gt nonneg show ?thesis by blast
qed

theorem portfolio_summary_total_witness:
  "get_portfolio_summary empty_store 1 = Inr zero_summary \<and>
   (\<exists>s. get_portfolio_summary half_store 1 = Inr s \<and> 0 < total_purchase_price s \<and>
      portfolio_yield s = decimal_round (expected_profit s / total_purchase_price s) * 100 \<and>
      portfolio_yield s = 50)"
proof -
  from portfolio_summary_total [of empty_store 1]
  have "get_portfolio_summary empty_store 1 = Inr zero_summary"
    by (auto simp: empty_store_def)
  moreover from portfolio_summary_total [of half_store 1] half_store_summary
  have "\<exists>s. get_portfolio_summary half_store 1 = Inr s \<and> 0 < total_purchase_price s \<and>
      portfolio_yield s = decimal_round (expected_profit s / total_purchase_price s) * 100 \<and>
      portfolio_yield s = 50"
    by auto
  ultimately show ?thesis by blast
qed

section \<open>Investment update\<close>

lemma map_replace_first:
  assumes "find P xs = Some x" and "f y = f x"
  shows "map f (replace_first P y xs) = map f xs"
  using assms by (induction xs) (auto split: if_splits)

lemma length_replace_first: "length (replace_first P y xs) = length xs"
  by (induction xs) auto

text \<open>
  What lines 165 to 168 do to a row: the columns that no request can name stay, and the
  description and the status are those of the request where the request set them.
\<close>

lemma apply_update_frame:
  "frozen_fields (apply_update iv upd) = frozen_fields iv"
  "inv_description (apply_update iv upd) =
     (case iu_description upd of None \<Rightarrow> inv_description iv | Some v \<Rightarrow> v)"
  "status (apply_update iv upd) = (case iu_status upd of None \<Rightarrow> status iv | Some v \<Rightarrow> v)"
  by (simp_all add: apply_update_def frozen_fields_def face_value_def purchase_price_def
      annual_coupon_rate_def split: option.splits)

text \<open>
  Whatever the filter of the query, lines 155 to 173 leave the frozen columns of every
  stored investment, the number of investments and the payment events as they were.
\<close>

lemma update_first_frame:
  assumes "update_first mine db upd = (db', r)"
  shows "map frozen_fields (investments db') = map frozen_fields (investments db)"
    and "payment_schedules db' = payment_schedules db"
    and "uuid_source db' = uuid_source db"
proof -
  show "map frozen_fields (investments db') = map frozen_fields (investments db)"
  proof (cases "find mine (investments db)")
    case None
    with assms show ?thesis by (simp add: update_first_def)
  next
    case (Some iv)
    with assms have "investments db' =
        replace_first mine (apply_update iv upd) (investments db)"
      by (auto simp: update_first_def Let_def)
    with map_replace_first [of mine "investments db" iv frozen_fields "apply_update iv upd",
        OF Some apply_update_frame(1)]
    show ?thesis by simp
  qed
  show "payment_schedules db' = payment_schedules db" and "uuid_source db' = uuid_source db"
    using assms by (auto simp: update_first_def Let_def split: option.splits)
qed

text \<open>
  The filter of \<^verbatim>\<open>update_investment\<close> passes no row: the identifier column holds
  strings and is compared with a \<^verbatim>\<open>UUID\<close> object.
\<close>

lemma update_investment_finds_nothing:
  "find (\<lambda>i. Str (inv_id i) = Uuid iid \<and> Str (user_id i) = Str uid) xs = None"
  by (induction xs) simp_all

text \<open>
  C10.  For every investment that exists and is owned by the requesting user, and every
  update request for it: the request ends with status 404, and the store after it is the
  store before it.  So the type, face value, purchase price, coupon rate, issue, purchase
  and maturity dates (and identifier and owner) of every stored investment are
  unchanged, and so are the payment events; the description and the status are
  unchanged as well.
\<close>

theorem update_changes_description_and_status_only:
  assumes "iv \<in> set (investments db)" and "inv_id iv = iid" and "user_id iv = uid"
  shows "\<exists>db' r. update_investment db uid iid upd = (db', r) \<and>
           r = Inl (HTTPException_404 ''Investment not found'') \<and>
           map frozen_fields (investments db') = map frozen_fields (investments db) \<and>
           payment_schedules db' = payment_schedules db \<and>
           investments db' = investments db \<and>
           uuid_source db' = uuid_source db"
proof -
  have "update_investment db uid iid upd =
      (db, Inl (HTTPException_404 ''Investment not found''))"
    unfolding update_investment_def update_first_def
    by (simp only: update_investment_finds_nothing option.case)
  then show ?thesis by simp
qed

theorem update_changes_description_and_status_only_witness:
  "example_note \<in> set (investments updated_store) \<and>
   inv_id example_note = 7 \<and> user_id example_note = 1 \<and>
   (\<exists>db' r. update_investment updated_store 1 7 example_update = (db', r) \<and>
      r = Inl (HTTPException_404 ''Investment not found'') \<and>
      map frozen_fields (investments db') = map frozen_fields (investments updated_store) \<and>
      payment_schedules db' = payment_schedules updated_store \<and>
      investments db' = investments updated_store \<and>
      uuid_source db' = uuid_source updated_store)"
proof -
  have h1: "example_note \<in> set (investments updated_store)"
    by (simp add: updated_store_def)
  have h2: "inv_id example_note = 7" and h3: "user_id example_note = 1"
    by (simp_all add: example_note_def new_Investment_def)
  from update_changes_description_and_status_only [OF h1 h2 h3, of example_update] h1 h2 h3
  show ?thesis by blast
qed

section \<open>Upcoming payments\<close>

lemma get_upcoming_payments_raises:
  "get_upcoming_payments db uid today days_ahead limit = Inl (NameError ''timedelta'')"
  by (simp add: get_upcoming_payments_def resolve_name_def module_names_def)

text \<open>
  What the statements after the failing one compute on the example of the claim: the
  window of 90 days from 2024-06-01 ends on 2024-08-30, and the query returns the events
  of 2024-06-01 and 2024-06-11 in this order, not the one of 2024-09-09.
\<close>

lemma date_add_days_within_month:
  assumes "day d + n \<le> monthrange (year d) (month d)" and "year d \<le> MAXYEAR"
  shows "date_add_days d n = Inr (d\<lparr>day := day d + n\<rparr>)"
  using assms
proof (induction n arbitrary: d)
  case 0
  show ?case by simp
next
  case (Suc n)
  from Suc.prems have nd: "next_day d = d\<lparr>day := day d + 1\<rparr>"
    by (simp add: next_day_def)
  from Suc.prems have "date_add_days (next_day d) n = Inr ((next_day d)\<lparr>day := day (next_day d) + n\<rparr>)"
    by (intro Suc.IH) (simp_all add: nd)
  with Suc.prems show ?case by (simp add: nd)
qed

lemma date_add_days_add:
  "date_add_days d (m + n) =
     (case date_add_days d m of Inl e \<Rightarrow> Inl e | Inr d' \<Rightarrow> date_add_days d' n)"
  by (induction m arbitrary: d) simp_all

lemma window_end_example: "date_add_days (Date 2024 6 1) 90 = Inr (Date 2024 8 30)"
proof -
  have a: "date_add_days (Date 2024 6 1) 29 = Inr (Date 2024 6 30)"
    using date_add_days_within_month [of "Date 2024 6 1" 29]
    by (simp add: Date_def monthrange_def MAXYEAR_def)
  have b: "date_add_days (Date 2024 6 30) 1 = Inr (Date 2024 7 1)"
    by (simp add: Date_def next_day_def monthrange_def MAXYEAR_def)
  have c: "date_add_days (Date 2024 7 1) 30 = Inr (Date 2024 7 31)"
    using date_add_days_within_month [of "Date 2024 7 1" 30]
    by (simp add: Date_def monthrange_def MAXYEAR_def)
  have d: "date_add_days (Date 2024 7 31) 1 = Inr (Date 2024 8 1)"
    by (simp add: Date_def next_day_def monthrange_def MAXYEAR_def)
  have e: "date_add_days (Date 2024 8 1) 29 = Inr (Date 2024 8 30)"
    using date_add_days_within_month [of "Date 2024 8 1" 29]
    by (simp add: Date_def monthrange_def MAXYEAR_def)
  have "(90::nat) = 29 + (1 + (30 + (1 + 29)))" by simp
  then show ?thesis
    by (simp only: date_add_days_add a b c d e sum.case)
qed

lemma upcoming_payments_query_example:
  "map (\<lambda>u. (up_id u, up_payment_date u))
     (upcoming_payments_query upcoming_store 1 (Date 2024 6 1) (Date 2024 8 30) 50) =
   [(8, Date 2024 6 1), (9, Date 2024 6 11)]"
  by (simp add: upcoming_payments_query_def upcoming_store_def example_note_def
      new_Investment_def note_request_def new_PaymentSchedule_def pending_or_due_def
      order_by_payment_date_def date_le_def Date_def Let_def numeric_eval)

text \<open>
  C8.  The claim is that the call returns the pending or due events of the window, in
  date order and at most \<open>limit\<close> of them: for events today, in 10 and in 100 days, with
  a window of 90 days and a limit of 50, the first two.  The module never imports
  \<^verbatim>\<open>timedelta\<close>, so the first statement of the function raises \<open>NameError\<close> on this
  input, as on every other.
\<close>

theorem upcoming_payments_raises_NameError:
  "get_upcoming_payments upcoming_store 1 (Date 2024 6 1) 90 50 =
     Inl (NameError ''timedelta'')"
  by (rule get_upcoming_payments_raises)


end
